theory Spec2Isabelle
  imports Complex_Main "HOL-Library.Multiset"
begin

section \<open>Numeric conventions\<close>

text \<open>
  The module \<^verbatim>\<open>qats/signal.py\<close> works on numpy arrays of floats. Samples are modelled
  as real numbers (rounding is not modelled); the special values a numpy division can
  produce are kept apart in \<open>npfloat\<close>, because numpy does not raise on a division by
  zero: it warns and returns \<open>nan\<close> or \<open>inf\<close>. Python exceptions are values of \<open>error\<close>.
\<close>

datatype error = ValueError | TypeError | IndexError | ZeroDivisionError | AttributeError

datatype npfloat = Fin real | PInf | NInf | NaN

text \<open>numpy true division of two float scalars (signed zeros are not modelled).\<close>

fun fdiv :: "npfloat \<Rightarrow> npfloat \<Rightarrow> npfloat" where
  "fdiv NaN _ = NaN"
| "fdiv _ NaN = NaN"
| "fdiv (Fin a) (Fin b) =
     (if b \<noteq> 0 then Fin (a / b)
      else if a = 0 then NaN else if 0 < a then PInf else NInf)"
| "fdiv (Fin a) PInf = Fin 0"
| "fdiv (Fin a) NInf = Fin 0"
| "fdiv PInf (Fin b) = (if b < 0 then NInf else PInf)"
| "fdiv NInf (Fin b) = (if b < 0 then PInf else NInf)"
| "fdiv PInf PInf = NaN"
| "fdiv PInf NInf = NaN"
| "fdiv NInf PInf = NaN"
| "fdiv NInf NInf = NaN"

text \<open>numpy multiplication and addition of two float scalars.\<close>

fun fmul :: "npfloat \<Rightarrow> npfloat \<Rightarrow> npfloat" where
  "fmul NaN _ = NaN"
| "fmul _ NaN = NaN"
| "fmul (Fin a) (Fin b) = Fin (a * b)"
| "fmul (Fin a) PInf = (if a = 0 then NaN else if 0 < a then PInf else NInf)"
| "fmul (Fin a) NInf = (if a = 0 then NaN else if 0 < a then NInf else PInf)"
| "fmul PInf (Fin b) = (if b = 0 then NaN else if 0 < b then PInf else NInf)"
| "fmul NInf (Fin b) = (if b = 0 then NaN else if 0 < b then NInf else PInf)"
| "fmul PInf PInf = PInf"
| "fmul PInf NInf = NInf"
| "fmul NInf PInf = NInf"
| "fmul NInf NInf = PInf"

fun fadd :: "npfloat \<Rightarrow> npfloat \<Rightarrow> npfloat" where
  "fadd NaN _ = NaN"
| "fadd _ NaN = NaN"
| "fadd (Fin a) (Fin b) = Fin (a + b)"
| "fadd (Fin a) PInf = PInf"
| "fadd (Fin a) NInf = NInf"
| "fadd PInf (Fin b) = PInf"
| "fadd NInf (Fin b) = NInf"
| "fadd PInf PInf = PInf"
| "fadd PInf NInf = NaN"
| "fadd NInf PInf = NaN"
| "fadd NInf NInf = NInf"

text \<open>\<^verbatim>\<open>np.sum\<close> of a float array (0.0 for the empty array) and \<^verbatim>\<open>np.sin\<close>.\<close>

definition fsum :: "npfloat list \<Rightarrow> npfloat" where
  "fsum vs = fold (\<lambda>v acc. fadd acc v) vs (Fin 0)"

fun fsin :: "npfloat \<Rightarrow> npfloat" where
  "fsin (Fin a) = Fin (sin a)"
| "fsin _ = NaN"

section \<open>Crossing analysis\<close>

text \<open>\<^verbatim>\<open>np.mean(x)\<close>; on an empty array numpy returns \<open>nan\<close>, which is then subtracted
  from no element at all, so the value chosen here for the empty list is never read.\<close>

definition mean :: "real list \<Rightarrow> real" where
  "mean xs = sum_list xs / real (length xs)"

definition demean :: "real list \<Rightarrow> real list" where
  "demean xs = map (\<lambda>v. v - mean xs) xs"

text \<open>\<^verbatim>\<open>np.diff\<close>: first differences, one element shorter than the input.\<close>

fun np_diff :: "'a::minus list \<Rightarrow> 'a list" where
  "np_diff (a # b # xs) = (b - a) # np_diff (b # xs)"
| "np_diff _ = []"

text \<open>\<^verbatim>\<open>np.where(cond)[0]\<close>: the positions at which the condition holds, ascending.\<close>

definition np_where :: "('a \<Rightarrow> bool) \<Rightarrow> 'a list \<Rightarrow> nat list" where
  "np_where P cs = filter (\<lambda>k. P (cs ! k)) [0..<length cs]"

definition indicator :: "bool \<Rightarrow> int" where
  "indicator up = (if up then 1 else - 1)"

text \<open>\<^verbatim>\<open>1 * (x_ > 0.)\<close> for up-crossings, \<^verbatim>\<open>1 * (x_ < 0.)\<close> otherwise.\<close>

definition sign_flags :: "bool \<Rightarrow> real list \<Rightarrow> int list" where
  "sign_flags up xs = map (\<lambda>v. if (if up then 0 < v else v < 0) then 1 else 0) xs"

text \<open>The array \<^verbatim>\<open>crossings\<close> after \<^verbatim>\<open>crossings[crossings != indicator] = 0\<close>.\<close>

definition crossings :: "bool \<Rightarrow> real list \<Rightarrow> int list" where
  "crossings up x =
     map (\<lambda>c. if c \<noteq> indicator up then 0 else c) (np_diff (sign_flags up (demean x)))"

text \<open>\<^verbatim>\<open>np.where(crossings == indicator)[0] + 1\<close>.\<close>

definition crossing_indices :: "bool \<Rightarrow> real list \<Rightarrow> nat list" where
  "crossing_indices up x = map Suc (np_where (\<lambda>c. c = indicator up) (crossings up x))"

text \<open>
  \<^verbatim>\<open>average_frequency(t, x, up)\<close>. Reading \<^verbatim>\<open>i[-1]\<close> of an empty index array, or
  \<^verbatim>\<open>t\<close> beyond its end, raises \<open>IndexError\<close>; both divisions are numpy divisions.
\<close>

definition average_frequency :: "real list \<Rightarrow> real list \<Rightarrow> bool \<Rightarrow> error + npfloat" where
  "average_frequency t x up =
     (let cr = crossings up x;
          i = crossing_indices up x
      in if i = [] then Inl IndexError
         else if \<not> last i < length t then Inl IndexError
         else if \<not> hd i < length t then Inl IndexError
         else let d = fdiv (Fin (t ! last i - t ! hd i)) (Fin (of_int (\<bar>sum_list cr\<bar> - 1)))
              in Inr (fdiv (Fin 1) d))"

section \<open>Maxima\<close>

text \<open>The \<^verbatim>\<open>threshold\<close> argument: absent, a float, or an object of another type.\<close>

datatype threshold_arg = NoThreshold | FloatThreshold real | IntThreshold int | StrThreshold string

text \<open>What \<^verbatim>\<open>find_maxima\<close> returns: the maxima alone, or the maxima and their indices.\<close>

datatype maxima_result = Maxima "real list" | MaximaIndices "real list" "nat list"

text \<open>\<^verbatim>\<open>x[start:stop]\<close> for non-negative bounds.\<close>

definition slice :: "'a list \<Rightarrow> nat \<Rightarrow> nat \<Rightarrow> 'a list" where
  "slice xs start stop = take (stop - start) (drop start xs)"

text \<open>\<^verbatim>\<open>.max()\<close> and \<^verbatim>\<open>np.argmax\<close> (first position of the largest element). Both are
  only applied to the non-empty windows between two crossing indices.\<close>

definition np_max :: "real list \<Rightarrow> real" where
  "np_max xs = fold max (tl xs) (hd xs)"

definition np_argmax :: "real list \<Rightarrow> nat" where
  "np_argmax xs = length (takeWhile (\<lambda>v. v \<noteq> np_max xs) xs)"

text \<open>One pass of the loop over \<^verbatim>\<open>enumerate(crossing_indices[:-1])\<close>.\<close>

definition global_step ::
  "real list \<Rightarrow> nat list \<Rightarrow> nat \<Rightarrow> real list \<times> nat list \<Rightarrow> real list \<times> nat list" where
  "global_step x ci j st =
     (let start = ci ! j;
          stop = ci ! (j + 1);
          w = slice x start stop
      in ((fst st)[j := np_max w], (snd st)[j := start + np_argmax w]))"

text \<open>The global branch: both arrays start as \<^verbatim>\<open>np.zeros(n_crossings)\<close>.\<close>

definition global_maxima :: "real list \<Rightarrow> nat list \<Rightarrow> nat \<Rightarrow> real list \<times> nat list" where
  "global_maxima x ci n =
     fold (global_step x ci) [0..<length ci - 1] (replicate n 0, replicate n 0)"

text \<open>The local branch: turning points of the first difference.\<close>

definition local_maxima :: "real list \<Rightarrow> real list \<times> nat list" where
  "local_maxima x =
     (let ds = map (\<lambda>d. if d < 0 then 1 else 0) (np_diff x) @ [0::int];
          d2s = 0 # np_diff ds;
          maxima_indices = np_where (\<lambda>d. d = 1) d2s
      in (map (\<lambda>k. x ! k) maxima_indices, maxima_indices))"

text \<open>Boolean-mask indexing \<^verbatim>\<open>a[mask]\<close> and \<^verbatim>\<open>np.argsort\<close> (ties in the order of
  a stable sort; numpy's default sort leaves the order of equal keys open).\<close>

definition mask_select :: "bool list \<Rightarrow> 'a list \<Rightarrow> 'a list" where
  "mask_select keep xs = map snd (filter fst (zip keep xs))"

definition np_argsort :: "real list \<Rightarrow> nat list" where
  "np_argsort xs = map snd (sort_key fst (zip xs [0..<length xs]))"

definition take_at :: "'a list \<Rightarrow> nat list \<Rightarrow> 'a list" where
  "take_at xs is = map (\<lambda>k. xs ! k) is"

definition find_maxima ::
  "real list \<Rightarrow> bool \<Rightarrow> threshold_arg \<Rightarrow> bool \<Rightarrow> bool \<Rightarrow> error + maxima_result" where
  "find_maxima x local threshold up retind =
     (let cr = crossings up x;
          n_crossings = sum_list cr
      in if n_crossings < 2 then
           (if retind then Inr (MaximaIndices [] []) else Inr (Maxima []))
         else
           let ci0 = crossing_indices up x;
               ci = (if last ci0 < length x - 1 then ci0 @ [length x - 1] else ci0);
               found = (if \<not> local then global_maxima x ci (nat n_crossings)
                        else local_maxima x);
               kept =
                 (case threshold of
                    NoThreshold \<Rightarrow> Inr found
                  | FloatThreshold th \<Rightarrow>
                      (let above_threshold = map (\<lambda>v. th \<le> v) (fst found)
                       in Inr (mask_select above_threshold (fst found),
                               mask_select above_threshold (snd found)))
                  | IntThreshold _ \<Rightarrow> Inl TypeError
                  | StrThreshold _ \<Rightarrow> Inl TypeError)
           in case kept of
                Inl e \<Rightarrow> Inl e
              | Inr (maxima, maxima_indices) \<Rightarrow>
                  (let ascending = np_argsort maxima
                   in if retind
                      then Inr (MaximaIndices (take_at maxima ascending)
                                              (take_at maxima_indices ascending))
                      else Inr (Maxima (take_at maxima ascending))))"

text \<open>The candidate arrays of \<^verbatim>\<open>find_maxima\<close> for \<^verbatim>\<open>up=True\<close>, before the threshold
  and the sort: the same expressions as in \<open>find_maxima\<close>, named for the proofs.\<close>

definition found_maxima :: "real list \<Rightarrow> bool \<Rightarrow> real list \<times> nat list" where
  "found_maxima x local =
     (let ci0 = crossing_indices True x;
          ci = (if last ci0 < length x - 1 then ci0 @ [length x - 1] else ci0)
      in if \<not> local then global_maxima x ci (nat (sum_list (crossings True x)))
         else local_maxima x)"

section \<open>Autocorrelation\<close>

text \<open>Rounding to the nearest integer, ties to the even one (\<^verbatim>\<open>rint\<close>), and
  \<^verbatim>\<open>round(v, 3)\<close> of a numpy float: scale by 1000, round, scale back; \<open>nan\<close> and
  \<open>inf\<close> pass through.\<close>

definition rint :: "real \<Rightarrow> int" where
  "rint r =
     (let f = \<lfloor>r\<rfloor>; d = r - of_int f
      in if d < 1 / 2 then f else if 1 / 2 < d then f + 1
         else if even f then f else f + 1)"

fun round3 :: "npfloat \<Rightarrow> npfloat" where
  "round3 (Fin r) = Fin (of_int (rint (r * 1000)) / 1000)"
| "round3 v = v"

text \<open>The inner function \<^verbatim>\<open>r(h)\<close> of \<^verbatim>\<open>autocorrelation\<close>, with \<^verbatim>\<open>data\<close>,
  \<^verbatim>\<open>mean\<close> and \<^verbatim>\<open>c0\<close> of the enclosing scope as arguments.\<close>

definition acf_r :: "real list \<Rightarrow> real \<Rightarrow> npfloat \<Rightarrow> nat \<Rightarrow> npfloat" where
  "acf_r data m c0 h =
     (let n = length data;
          acf_lag = fdiv (fdiv (Fin (sum_list (map2 (\<lambda>a b. (a - m) * (b - m))
                                                   (take (n - h) data) (drop h data))))
                               (Fin (real n))) c0
      in round3 acf_lag)"

text \<open>\<^verbatim>\<open>autocorrelation(series)\<close>: the values the returned \<^verbatim>\<open>map\<close> object yields, in
  order; \<^verbatim>\<open>x = np.arange(n)\<close> are the lags it is mapped over.\<close>

definition autocorrelation :: "real list \<Rightarrow> npfloat list" where
  "autocorrelation series =
     (let n = length series;
          data = series;
          m = mean data;
          c0 = fdiv (Fin (sum_list (map (\<lambda>v. (v - m) ^ 2) data))) (Fin (real n));
          x = [0..<n]
      in map (acf_r data m c0) x)"

section \<open>Smoothing\<close>

text \<open>The argument of \<^verbatim>\<open>smooth\<close> after \<^verbatim>\<open>np.asarray\<close>: an array of dimension 0, 1 or 2.\<close>

datatype ndarray = Array0 real | Array1 "real list" | Array2 "real list list"

text \<open>Python slices: \<^verbatim>\<open>x[start:stop]\<close> and \<^verbatim>\<open>x[start:stop:-1]\<close> with integer bounds.
  A negative bound counts from the end; bounds beyond the array are clipped.\<close>

definition py_slice :: "'a list \<Rightarrow> int \<Rightarrow> int \<Rightarrow> 'a list" where
  "py_slice xs start stop =
     (let n = int (length xs);
          clip = (\<lambda>i. let j = (if i < 0 then i + n else i)
                      in if j < 0 then 0 else if n < j then n else j);
          a = clip start; b = clip stop
      in take (nat (b - a)) (drop (nat a) xs))"

definition py_slice_back :: "'a list \<Rightarrow> int \<Rightarrow> int \<Rightarrow> 'a list" where
  "py_slice_back xs start stop =
     (let n = int (length xs);
          clip = (\<lambda>i. let j = (if i < 0 then i + n else i)
                      in if j < 0 then - 1 else if n \<le> j then n - 1 else j);
          a = clip start; b = clip stop
      in map (\<lambda>k. xs ! nat k) (rev [b + 1..a]))"

text \<open>The numpy windows \<^verbatim>\<open>hanning\<close>, \<^verbatim>\<open>hamming\<close>, \<^verbatim>\<open>bartlett\<close>, \<^verbatim>\<open>blackman\<close> of
  length \<open>M\<close>, by their documented formulas: no sample for \<open>M < 1\<close>, the single
  weight 1 for \<open>M = 1\<close>.\<close>

definition np_hanning :: "nat \<Rightarrow> real list" where
  "np_hanning M =
     (if M = 1 then [1]
      else map (\<lambda>n. 0.5 - 0.5 * cos (2 * pi * real n / (real M - 1))) [0..<M])"

definition np_hamming :: "nat \<Rightarrow> real list" where
  "np_hamming M =
     (if M = 1 then [1]
      else map (\<lambda>n. 0.54 - 0.46 * cos (2 * pi * real n / (real M - 1))) [0..<M])"

definition np_bartlett :: "nat \<Rightarrow> real list" where
  "np_bartlett M =
     (if M = 1 then [1]
      else map (\<lambda>n. 2 / (real M - 1) * ((real M - 1) / 2 - \<bar>real n - (real M - 1) / 2\<bar>))
               [0..<M])"

definition np_blackman :: "nat \<Rightarrow> real list" where
  "np_blackman M =
     (if M = 1 then [1]
      else map (\<lambda>n. 0.42 - 0.5 * cos (2 * pi * real n / (real M - 1))
                         + 0.08 * cos (4 * pi * real n / (real M - 1))) [0..<M])"

text \<open>\<^verbatim>\<open>np.convolve(a, v, mode)\<close> for non-empty \<open>a\<close> and \<open>v\<close>: the full discrete
  convolution, its central part of length \<open>max\<close>, or the part where the two overlap
  completely. A mode name numpy does not know is an error.\<close>

definition convolve_full :: "real list \<Rightarrow> real list \<Rightarrow> real list" where
  "convolve_full a v =
     map (\<lambda>k. \<Sum>j\<leftarrow>[0..<length a]. if j \<le> k \<and> k - j < length v then a ! j * v ! (k - j) else 0)
         [0..<length a + length v - 1]"

definition np_convolve :: "real list \<Rightarrow> real list \<Rightarrow> string \<Rightarrow> error + real list" where
  "np_convolve a v mode =
     (let lo = min (length a) (length v); hi = max (length a) (length v);
          full = convolve_full a v
      in if mode = ''full'' then Inr full
         else if mode = ''same'' then Inr (take hi (drop ((lo - 1) div 2) full))
         else if mode = ''valid'' then Inr (take (hi - lo + 1) (drop (lo - 1) full))
         else Inl ValueError)"

definition known_windows :: "string list" where
  "known_windows = [''rectangular'', ''hanning'', ''hamming'', ''bartlett'', ''blackman'']"

text \<open>\<^verbatim>\<open>np.ones(window_len, 'd')\<close> or \<^verbatim>\<open>eval('np.' + window + '(window_len)')\<close> for the
  four other names that pass the membership test.\<close>

definition smooth_window :: "string \<Rightarrow> nat \<Rightarrow> real list" where
  "smooth_window window M =
     (if window = ''rectangular'' then replicate M 1
      else if window = ''hanning'' then np_hanning M
      else if window = ''hamming'' then np_hamming M
      else if window = ''bartlett'' then np_bartlett M
      else np_blackman M)"

text \<open>\<^verbatim>\<open>smooth(x, window_len, window, mode)\<close>, check by check in the order of the source.\<close>

definition smooth :: "ndarray \<Rightarrow> int \<Rightarrow> string \<Rightarrow> string \<Rightarrow> error + real list" where
  "smooth x window_len window mode =
     (case x of
        Array0 _ \<Rightarrow> Inl ValueError
      | Array2 _ \<Rightarrow> Inl ValueError
      | Array1 xs \<Rightarrow>
          if int (length xs) < window_len then Inl ValueError
          else if window_len < 3 then Inr xs
          else if window \<notin> set known_windows then Inl ValueError
          else
            let w = smooth_window window (nat window_len);
                kernel = map (\<lambda>v. v / sum_list w) w
            in if mode = ''valid'' then
                 np_convolve kernel
                   (py_slice_back xs (window_len - 1) 0 @ xs @ py_slice_back xs (- 1) (- window_len))
                   mode
               else
                 (case np_convolve kernel
                         (map (\<lambda>v. 2 * hd xs - v) (py_slice_back xs window_len 1) @ xs @
                          map (\<lambda>v. 2 * last xs - v) (py_slice_back xs (- 1) (- window_len)))
                         mode of
                    Inl e \<Rightarrow> Inl e
                  | Inr y \<Rightarrow> Inr (py_slice y (window_len - 1) (- window_len + 1))))"

section \<open>Tapering\<close>

text \<open>\<^verbatim>\<open>str.lower\<close> on the ASCII letters.\<close>

definition lower_char :: "char \<Rightarrow> char" where
  "lower_char c =
     (if (65::nat) \<le> of_char c \<and> of_char c \<le> (90::nat) then char_of (of_char c + (32::nat)) else c)"

definition lower :: "string \<Rightarrow> string" where
  "lower s = map lower_char s"

text \<open>The weight the three consecutive \<^verbatim>\<open>if\<close> statements of the Tukey loop leave in
  \<^verbatim>\<open>w[i]\<close>, which starts as 0; a later statement overwrites an earlier one.\<close>

definition tukey_weight :: "real \<Rightarrow> nat \<Rightarrow> nat \<Rightarrow> real" where
  "tukey_weight alpha window_len i =
     (let n = real window_len; r = real i;
          w0 = 0;
          w1 = (if 0 \<le> r \<and> r < alpha * n / 2
                then 0.5 * (1 + cos (pi * (2 * r / (alpha * n) - 1))) else w0);
          w2 = (if alpha * n / 2 \<le> r \<and> r \<le> n * (1 - alpha / 2) then 1 else w1);
          w3 = (if n * (1 - alpha / 2) < r \<and> r \<le> n
                then 0.5 * (1 + cos (pi * (2 * r / (alpha * n) - 2 / alpha + 1))) else w2)
      in w3)"

text \<open>
  The window \<^verbatim>\<open>w\<close> of \<^verbatim>\<open>taper\<close>. The branches \<^verbatim>\<open>kaiser\<close> and \<^verbatim>\<open>else\<close> evaluate
  \<^verbatim>\<open>eval('np.' + window + '(window_len[, alpha])')\<close>: the numpy namespace is the
  parameter \<open>np_eval\<close>, from the name, the length and the optional second argument to
  the array built, or to the exception raised.
\<close>

definition taper_window ::
  "(string \<Rightarrow> nat \<Rightarrow> real option \<Rightarrow> error + npfloat list) \<Rightarrow> string \<Rightarrow> real \<Rightarrow> nat
     \<Rightarrow> error + npfloat list" where
  "taper_window np_eval window alpha window_len =
     (if window = ''rectangular'' then Inr (replicate window_len (Fin 1))
      else if window = ''tukey'' then
        Inr (map (\<lambda>i. Fin (tukey_weight alpha window_len i)) [0..<window_len])
      else if window = ''cosine'' then
        Inr (map (\<lambda>n. fsin (fdiv (Fin (pi * real n)) (Fin (real window_len - 1))))
                 [0..<window_len])
      else if window = ''kaiser'' then np_eval window window_len (Some alpha)
      else np_eval window window_len None)"

text \<open>\<^verbatim>\<open>x * w\<close> on one-dimensional arrays: element by element, an array of length one
  being broadcast; other lengths that differ are a \<open>ValueError\<close>.\<close>

definition np_mul :: "npfloat list \<Rightarrow> npfloat list \<Rightarrow> error + npfloat list" where
  "np_mul a b =
     (if length a = length b then Inr (map2 fmul a b)
      else if length a = 1 then Inr (map (fmul (hd a)) b)
      else if length b = 1 then Inr (map (\<lambda>v. fmul v (hd b)) a)
      else Inl ValueError)"

text \<open>\<^verbatim>\<open>taper(x, window, alpha)\<close>: the tapered signal and the correction factor.\<close>

definition taper ::
  "(string \<Rightarrow> nat \<Rightarrow> real option \<Rightarrow> error + npfloat list) \<Rightarrow> real list \<Rightarrow> string \<Rightarrow> real
     \<Rightarrow> error + (npfloat list \<times> npfloat)" where
  "taper np_eval x window alpha =
     (let window_len = length x;
          window = lower window
      in case taper_window np_eval window alpha window_len of
           Inl e \<Rightarrow> Inl e
         | Inr w \<Rightarrow>
             (case np_mul (map Fin x) w of
                Inl e \<Rightarrow> Inl e
              | Inr y \<Rightarrow>
                  (let wcorr = fdiv (fsum (map (\<lambda>v. fmul v v) w)) (Fin (real window_len))
                   in Inr (y, wcorr))))"

text \<open>A numpy namespace for concrete runs of \<open>taper\<close>: it has the four windows above
  and nothing else.\<close>

definition np_eval_basic :: "string \<Rightarrow> nat \<Rightarrow> real option \<Rightarrow> error + npfloat list" where
  "np_eval_basic name M arg =
     (if name = ''hanning'' then Inr (map Fin (np_hanning M))
      else if name = ''hamming'' then Inr (map Fin (np_hamming M))
      else if name = ''bartlett'' then Inr (map Fin (np_bartlett M))
      else if name = ''blackman'' then Inr (map Fin (np_blackman M))
      else Inl AttributeError)"

section \<open>Frequency-domain filters\<close>

text \<open>The input of a filter: an array of real or of complex dtype.\<close>

datatype signal = RealSignal "real list" | ComplexSignal "complex list"

definition signal_size :: "signal \<Rightarrow> nat" where
  "signal_size x = (case x of RealSignal xs \<Rightarrow> length xs | ComplexSignal zs \<Rightarrow> length zs)"

text \<open>\<^verbatim>\<open>np.all(np.isreal(x))\<close>: every imaginary part is zero.\<close>

definition all_isreal :: "signal \<Rightarrow> bool" where
  "all_isreal x = (case x of RealSignal _ \<Rightarrow> True | ComplexSignal zs \<Rightarrow> list_all (\<lambda>z. Im z = 0) zs)"

text \<open>\<^verbatim>\<open>int(pow(2, np.ceil(np.log(n) / np.log(2))))\<close> in exact arithmetic: the least power
  of two that is at least \<open>n\<close>, and 0 for \<open>n = 0\<close> (the logarithm is \<open>-inf\<close> there).\<close>

function pow2_from :: "nat \<Rightarrow> nat \<Rightarrow> nat" where
  "pow2_from p n = (if n \<le> p \<or> p = 0 then p else pow2_from (2 * p) n)"
  by pat_completeness auto
termination
  by (relation "measure (\<lambda>(p, n). n - p)") auto

declare pow2_from.simps [simp del]

definition nfft_of :: "nat \<Rightarrow> nat" where
  "nfft_of n = (if n = 0 then 0 else pow2_from 1 n)"

text \<open>\<^verbatim>\<open>sys.float_info.epsilon\<close>.\<close>

definition float_epsilon :: real where
  "float_epsilon = 1 / 2 ^ 52"

text \<open>The transforms of \<^verbatim>\<open>scipy.fftpack\<close>, by their documented definitions and in exact
  arithmetic. A transform of length \<open>n\<close> truncates or zero-pads its input to \<open>n\<close> samples
  and refuses \<open>n < 1\<close>; \<^verbatim>\<open>rfft\<close> refuses an array of complex dtype.\<close>

definition zero_pad :: "nat \<Rightarrow> 'a::zero list \<Rightarrow> 'a list" where
  "zero_pad n xs = take n xs @ replicate (n - length xs) 0"

definition dft_angle :: "nat \<Rightarrow> nat \<Rightarrow> nat \<Rightarrow> real" where
  "dft_angle n j k = 2 * pi * real j * real k / real n"

text \<open>Real and imaginary part of \<open>y(m) = sum[k] x[k] * exp(-sqrt(-1)*m*k*2*pi/n)\<close>.\<close>

definition rfft_re :: "real list \<Rightarrow> nat \<Rightarrow> real" where
  "rfft_re xs m = (\<Sum>k\<leftarrow>[0..<length xs]. xs ! k * cos (dft_angle (length xs) m k))"

definition rfft_im :: "real list \<Rightarrow> nat \<Rightarrow> real" where
  "rfft_im xs m = - (\<Sum>k\<leftarrow>[0..<length xs]. xs ! k * sin (dft_angle (length xs) m k))"

text \<open>The packed layout \<open>[y(0), Re y(1), Im y(1), Re y(2), ...]\<close> of \<^verbatim>\<open>rfft\<close>.\<close>

definition rfft_packed :: "real list \<Rightarrow> real list" where
  "rfft_packed xs =
     map (\<lambda>i. if i = 0 then rfft_re xs 0
               else if odd i then rfft_re xs ((i + 1) div 2)
               else rfft_im xs (i div 2)) [0..<length xs]"

definition rfft :: "signal \<Rightarrow> nat \<Rightarrow> error + real list" where
  "rfft x n =
     (case x of
        ComplexSignal _ \<Rightarrow> Inl TypeError
      | RealSignal xs \<Rightarrow> if n < 1 then Inl ValueError else Inr (rfft_packed (zero_pad n xs)))"

text \<open>\<^verbatim>\<open>irfft\<close> of a packed array: \<open>y(j) = 1/n (sum[k=1..(n-1)/2] (x[2k-1] + sqrt(-1)*x[2k])
  * exp(sqrt(-1)*j*k*2*pi/n) + c.c. + x[0] + (-1)**j x[n-1])\<close>, the last term for even
  \<open>n\<close> only.\<close>

definition irfft :: "real list \<Rightarrow> nat \<Rightarrow> real list" where
  "irfft r n =
     (let x = zero_pad n r
      in map (\<lambda>j. (x ! 0
                    + (if even n then (- 1) ^ j * x ! (n - 1) else 0)
                    + (\<Sum>k\<leftarrow>[1..<(n - 1) div 2 + 1].
                         2 * (x ! (2 * k - 1) * cos (dft_angle n j k)
                              - x ! (2 * k) * sin (dft_angle n j k)))) / real n)
             [0..<n])"

definition complex_samples :: "signal \<Rightarrow> complex list" where
  "complex_samples x = (case x of RealSignal xs \<Rightarrow> map complex_of_real xs | ComplexSignal zs \<Rightarrow> zs)"

definition fft :: "signal \<Rightarrow> nat \<Rightarrow> error + complex list" where
  "fft x n =
     (if n < 1 then Inl ValueError
      else let zs = zero_pad n (complex_samples x)
           in Inr (map (\<lambda>j. \<Sum>k\<leftarrow>[0..<n]. zs ! k * cis (- dft_angle n j k)) [0..<n]))"

definition ifft :: "complex list \<Rightarrow> nat \<Rightarrow> complex list" where
  "ifft ys n =
     (let zs = zero_pad n ys
      in map (\<lambda>j. (\<Sum>k\<leftarrow>[0..<n]. zs ! k * cis (dft_angle n j k)) / of_nat n) [0..<n])"

text \<open>The bin frequencies. \<^verbatim>\<open>rfftfreq(n, d)\<close> is \<open>(arange(1, n+1) // 2) / float(n*d)\<close>, a
  numpy division; \<^verbatim>\<open>fftfreq(n, d)\<close> starts with the Python division \<open>1.0/(n*d)\<close>, which
  raises for a zero time step.\<close>

definition rfftfreq :: "nat \<Rightarrow> real \<Rightarrow> npfloat list" where
  "rfftfreq n d = map (\<lambda>i. fdiv (Fin (real ((i + 1) div 2))) (Fin (real n * d))) [0..<n]"

definition fftfreq :: "nat \<Rightarrow> real \<Rightarrow> error + npfloat list" where
  "fftfreq n d =
     (if real n * d = 0 then Inl ZeroDivisionError
      else let val = 1 / (real n * d); N = (n - 1) div 2 + 1
           in Inr (map (\<lambda>i. Fin ((if i < N then real i else real i - real n) * val)) [0..<n]))"

text \<open>Absolute value and comparison of numpy floats; a comparison with \<open>nan\<close> is false.\<close>

fun fabs :: "npfloat \<Rightarrow> npfloat" where
  "fabs (Fin a) = Fin \<bar>a\<bar>"
| "fabs PInf = PInf"
| "fabs NInf = PInf"
| "fabs NaN = NaN"

fun fle :: "npfloat \<Rightarrow> npfloat \<Rightarrow> bool" where
  "fle NaN _ = False"
| "fle _ NaN = False"
| "fle (Fin a) (Fin b) = (a \<le> b)"
| "fle NInf _ = True"
| "fle _ PInf = True"
| "fle PInf _ = False"
| "fle _ NInf = False"

text \<open>The gain arrays \<^verbatim>\<open>h\<close>: zeros set to one where the condition holds, or, for the
  band block, ones set to zero there.\<close>

definition lowpass_mask :: "npfloat list \<Rightarrow> real \<Rightarrow> real list" where
  "lowpass_mask f fc = map (\<lambda>v. if fle (fabs v) (Fin fc) then 1 else 0) f"

definition highpass_mask :: "npfloat list \<Rightarrow> real \<Rightarrow> real list" where
  "highpass_mask f fc = map (\<lambda>v. if fle (Fin fc) (fabs v) then 1 else 0) f"

definition bandpass_mask :: "npfloat list \<Rightarrow> real \<Rightarrow> real \<Rightarrow> real list" where
  "bandpass_mask f flow fupp =
     map (\<lambda>v. if fle (Fin flow) (fabs v) \<and> fle (fabs v) (Fin fupp) then 1 else 0) f"

definition bandblock_mask :: "npfloat list \<Rightarrow> real \<Rightarrow> real \<Rightarrow> real list" where
  "bandblock_mask f flow fupp =
     map (\<lambda>v. if fle (Fin flow) (fabs v) \<and> fle (fabs v) (Fin fupp) then 0 else 1) f"

text \<open>The body the four frequency filters share, with the gain array as a function of
  the bin frequencies: transform at length \<open>nfft\<close>, multiply, transform back, cut to the
  original \<open>n\<close> samples; the real transforms for a real-valued signal, the complex ones
  otherwise.\<close>

definition fft_filter :: "(npfloat list \<Rightarrow> real list) \<Rightarrow> signal \<Rightarrow> real \<Rightarrow> error + signal" where
  "fft_filter gain x dt =
     (let real_signal = all_isreal x;
          n = signal_size x;
          nfft = nfft_of n
      in if real_signal then
           (case rfft x nfft of
              Inl e \<Rightarrow> Inl e
            | Inr fa \<Rightarrow>
                (let f = rfftfreq nfft dt;
                     h = gain f;
                     x1 = irfft (map2 (*) fa h) nfft
                 in Inr (RealSignal (take n x1))))
         else
           (case fft x nfft of
              Inl e \<Rightarrow> Inl e
            | Inr fa \<Rightarrow>
                (case fftfreq nfft dt of
                   Inl e \<Rightarrow> Inl e
                 | Inr f \<Rightarrow>
                     (let h = gain f;
                          x1 = ifft (map2 (\<lambda>a g. a * complex_of_real g) fa h) nfft
                      in Inr (ComplexSignal (take n x1))))))"

definition lowpass :: "signal \<Rightarrow> real \<Rightarrow> real \<Rightarrow> error + signal" where
  "lowpass x dt fc =
     (let fc = (if fc = 0 then float_epsilon else fc)
      in fft_filter (\<lambda>f. lowpass_mask f fc) x dt)"

definition highpass :: "signal \<Rightarrow> real \<Rightarrow> real \<Rightarrow> error + signal" where
  "highpass x dt fc =
     (let fc = (if fc = 0 then float_epsilon else fc)
      in fft_filter (\<lambda>f. highpass_mask f fc) x dt)"

definition bandpass :: "signal \<Rightarrow> real \<Rightarrow> real \<Rightarrow> real \<Rightarrow> error + signal" where
  "bandpass x dt flow fupp =
     (let flow = (if flow = 0 then float_epsilon else flow);
          fupp = (if fupp = 0 then float_epsilon else fupp)
      in fft_filter (\<lambda>f. bandpass_mask f flow fupp) x dt)"

definition bandblock :: "signal \<Rightarrow> real \<Rightarrow> real \<Rightarrow> real \<Rightarrow> error + signal" where
  "bandblock x dt flow fupp =
     (let flow = (if flow = 0 then float_epsilon else flow);
          fupp = (if fupp = 0 then float_epsilon else fupp)
      in fft_filter (\<lambda>f. bandblock_mask f flow fupp) x dt)"

text \<open>\<^verbatim>\<open>threshold(x, thresholds)\<close>: the gain is taken from the amplitudes of the
  transform, \<^verbatim>\<open>(lth*max(abs(fa)) < abs(fa)) & (abs(fa) <= uth*max(abs(fa)))\<close>.\<close>

definition amplitude_mask :: "real list \<Rightarrow> real \<Rightarrow> real \<Rightarrow> real list" where
  "amplitude_mask amp lth uth =
     (let top = fold max (tl amp) (hd amp)
      in map (\<lambda>a. if lth * top < a \<and> a \<le> uth * top then 1 else 0) amp)"

definition threshold :: "signal \<Rightarrow> real \<times> real \<Rightarrow> error + signal" where
  "threshold x thresholds =
     (let real_signal = all_isreal x;
          n = signal_size x;
          nfft = nfft_of n;
          lth = fst thresholds; uth = snd thresholds
      in if real_signal then
           (case rfft x nfft of
              Inl e \<Rightarrow> Inl e
            | Inr fa \<Rightarrow>
                (let h = amplitude_mask (map abs fa) lth uth;
                     x1 = irfft (map2 (*) fa h) nfft
                 in Inr (RealSignal (take n x1))))
         else
           (case fft x nfft of
              Inl e \<Rightarrow> Inl e
            | Inr fa \<Rightarrow>
                (let h = amplitude_mask (map cmod fa) lth uth;
                     x1 = ifft (map2 (\<lambda>a g. a * complex_of_real g) fa h) nfft
                 in Inr (ComplexSignal (take n x1)))))"

text \<open>Whether every sample of a signal is a real number.\<close>

definition real_valued :: "signal \<Rightarrow> bool" where
  "real_valued x = (case x of RealSignal _ \<Rightarrow> True | ComplexSignal zs \<Rightarrow> list_all (\<lambda>z. Im z = 0) zs)"

text \<open>The weight sample \<open>k\<close> of the input has in sample \<open>j\<close> of \<^verbatim>\<open>irfft(rfft(x))\<close>,
  for a transform of length \<open>n\<close>.\<close>

definition dft_kernel :: "nat \<Rightarrow> nat \<Rightarrow> nat \<Rightarrow> real" where
  "dft_kernel n j k =
     1 + (if even n then (- 1) ^ j * (- 1) ^ k else 0)
       + 2 * (\<Sum>m\<in>{1..(n - 1) div 2}. cos (dft_angle n m k - dft_angle n j m))"


section \<open>Properties of the crossing analysis\<close>

lemma length_np_diff: "length (np_diff xs) = length xs - 1"
  by (induction xs rule: np_diff.induct) simp_all

lemma nth_np_diff: "Suc i < length xs \<Longrightarrow> np_diff xs ! i = xs ! Suc i - xs ! i"
proof (induction xs arbitrary: i rule: np_diff.induct)
  case (1 a b xs)
  then show ?case by (cases i) simp_all
qed simp_all

lemma set_np_where: "set (np_where P cs) = {k. k < length cs \<and> P (cs ! k)}"
  by (auto simp: np_where_def)

text \<open>The indices flagged as crossings. For \<^verbatim>\<open>up=True\<close> they are the samples at which
  the demeaned signal becomes positive after a non-positive sample. For \<^verbatim>\<open>up=False\<close>
  the code keeps the -1 entries of the difference of \<^verbatim>\<open>x_ < 0\<close>: the samples at which
  the demeaned signal becomes non-negative after a negative sample.\<close>

lemma crossing_indices_iff:
  "k \<in> set (crossing_indices up x) \<longleftrightarrow>
     (\<exists>i. k = Suc i \<and> Suc i < length x \<and>
          (if up then demean x ! i \<le> 0 \<and> 0 < demean x ! Suc i
           else demean x ! i < 0 \<and> 0 \<le> demean x ! Suc i))"
proof -
  have len: "length (crossings up x) = length x - 1"
    by (simp add: crossings_def length_np_diff sign_flags_def demean_def)
  have val: "crossings up x ! i = indicator up \<longleftrightarrow>
        (if up then demean x ! i \<le> 0 \<and> 0 < demean x ! Suc i
         else demean x ! i < 0 \<and> 0 \<le> demean x ! Suc i)" if "Suc i < length x" for i
  proof -
    have l: "Suc i < length (sign_flags up (demean x))" "i < length (demean x)"
      "Suc i < length (demean x)"
      using that by (simp_all add: sign_flags_def demean_def)
    have "i < length (np_diff (sign_flags up (demean x)))"
      using l(1) by (simp add: length_np_diff)
    then show ?thesis
      using l by (cases up) (auto simp: crossings_def nth_np_diff sign_flags_def indicator_def)
  qed
  show ?thesis
  proof
    assume "k \<in> set (crossing_indices up x)"
    then obtain i where i: "k = Suc i" "i < length x - 1" "crossings up x ! i = indicator up"
      by (auto simp: crossing_indices_def set_np_where len)
    then have "Suc i < length x" by simp
    with i val [of i] show "\<exists>i. k = Suc i \<and> Suc i < length x \<and>
          (if up then demean x ! i \<le> 0 \<and> 0 < demean x ! Suc i
           else demean x ! i < 0 \<and> 0 \<le> demean x ! Suc i)" by blast
  next
    assume "\<exists>i. k = Suc i \<and> Suc i < length x \<and>
          (if up then demean x ! i \<le> 0 \<and> 0 < demean x ! Suc i
           else demean x ! i < 0 \<and> 0 \<le> demean x ! Suc i)"
    then obtain i where i: "k = Suc i" "Suc i < length x"
      "(if up then demean x ! i \<le> 0 \<and> 0 < demean x ! Suc i
           else demean x ! i < 0 \<and> 0 \<le> demean x ! Suc i)" by blast
    then have "crossings up x ! i = indicator up" using val [of i] by simp
    moreover have "i < length (crossings up x)" using i(2) len by simp
    ultimately show "k \<in> set (crossing_indices up x)"
      using i(1) by (auto simp: crossing_indices_def set_np_where)
  qed
qed

lemma length_np_where: "length (np_where P cs) = length (filter P cs)"
proof -
  have "filter P (map ((!) cs) [0..<length cs]) =
        map ((!) cs) (filter (P \<circ> (!) cs) [0..<length cs])"
    by (simp only: filter_map)
  then have "length (filter P cs) = length (filter (P \<circ> (!) cs) [0..<length cs])"
    by (simp add: map_nth)
  then show ?thesis by (simp add: np_where_def comp_def)
qed

lemma sum_list_two_valued:
  "\<forall>c \<in> set cs. c = 0 \<or> c = (v::int) \<Longrightarrow>
   sum_list cs = v * int (length (filter (\<lambda>c. c = v) cs))"
  by (induction cs) (auto simp: algebra_simps)

lemma crossings_values: "c \<in> set (crossings up x) \<Longrightarrow> c = 0 \<or> c = indicator up"
  by (auto simp: crossings_def)

text \<open>\<^verbatim>\<open>np.sum(crossings)\<close> is the number of crossings for \<^verbatim>\<open>up=True\<close> and its
  negative for \<^verbatim>\<open>up=False\<close>.\<close>

lemma sum_crossings:
  "sum_list (crossings up x) = indicator up * int (length (crossing_indices up x))"
  using sum_list_two_valued [of "crossings up x" "indicator up"] crossings_values [of _ up x]
  by (auto simp: crossing_indices_def length_np_where)


text \<open>With fewer than two entries in its crossing index array, \<^verbatim>\<open>average_frequency\<close>
  either fails on an index or divides zero by zero.\<close>

lemma average_frequency_short_index:
  assumes "length (crossing_indices up x) < 2"
  shows "average_frequency t x up =
     (if crossing_indices up x = [] then Inl IndexError
      else if hd (crossing_indices up x) < length t then Inr NaN
      else Inl IndexError)"
proof (cases "crossing_indices up x")
  case Nil
  then show ?thesis by (simp add: average_frequency_def Let_def)
next
  case (Cons k ks)
  with assms have ks: "ks = []" by simp
  have "\<bar>sum_list (crossings up x)\<bar> = 1"
    using Cons ks by (cases up) (simp_all add: sum_crossings indicator_def)
  then show ?thesis using Cons ks
    by (simp add: average_frequency_def Let_def)
qed

text \<open>
  C1 (as the code has it). For \<^verbatim>\<open>up=True\<close> and a signal with fewer than two
  up-crossings, \<^verbatim>\<open>average_frequency\<close> never returns a frequency, but it has no error of
  its own for the case: with no up-crossing it fails with \<open>IndexError\<close> (the index array
  is empty), and with exactly one it returns \<open>nan\<close> (zero duration divided by zero
  intervals), provided the time array reaches the crossing.
\<close>

theorem average_frequency_few_crossings:
  "length (crossing_indices True x) < 2 \<Longrightarrow>
   average_frequency t x True =
     (if crossing_indices True x = [] then Inl IndexError
      else if hd (crossing_indices True x) < length t then Inr NaN
      else Inl IndexError)"
  by (rule average_frequency_short_index)

theorem average_frequency_few_crossings_witness:
  "length (crossing_indices True [- 1, - 1, 2]) < 2 \<and>
   average_frequency [0, 1, 2] [- 1, - 1, 2] True = Inr NaN"
proof -
  have h: "length (crossing_indices True [- 1, - 1, 2]) < 2" by code_simp
  have c: "crossing_indices True [- 1, - 1, 2] = [2]" by code_simp
  from average_frequency_few_crossings [OF h, of "[0, 1, 2]"] show ?thesis
    using h c by simp
qed

text \<open>C1, as stated, fails: a signal with a single up-crossing gets a value (\<open>nan\<close>), not
  an error.\<close>

theorem average_frequency_one_crossing_counterexample:
  "length (crossing_indices True [- 1, 1]) < 2 \<and>
   average_frequency [0, 1] [- 1, 1] True = Inr NaN"
  by code_simp




text \<open>For \<^verbatim>\<open>up=False\<close> the count \<^verbatim>\<open>n_crossings = np.sum(crossings)\<close> is never positive
  (the kept entries are -1), so \<^verbatim>\<open>find_maxima\<close> takes the early return on every
  signal; \<^verbatim>\<open>average_frequency\<close> takes the absolute value of the same sum.\<close>

lemma find_maxima_down_empty:
  "find_maxima x local thr False retind =
     Inr (if retind then MaximaIndices [] [] else Maxima [])"
proof -
  have "sum_list (crossings False x) < 2"
    by (simp add: sum_crossings indicator_def)
  then show ?thesis by (simp add: find_maxima_def Let_def)
qed

section \<open>Properties of the maxima\<close>

text \<open>
  C3 on the code. When the last up-crossing falls on the last sample, no closing index is
  appended, the loop of the global branch fills one slot fewer than
  \<^verbatim>\<open>np.zeros(n_crossings)\<close> has, and the untouched slot is returned: the pair (0.0, 0),
  although the sample at index 0 is -1.
\<close>

theorem find_maxima_filler_entry:
  "find_maxima [- 1, 1, - 1, 1] False NoThreshold True True = Inr (MaximaIndices [0, 1] [0, 1])
   \<and> [- 1, 1, - 1, 1 :: real] ! 0 \<noteq> 0"
  by code_simp

subsection \<open>Sorting and masking of the parallel arrays\<close>

lemma zip_nth_conv:
  "length a = length b \<Longrightarrow> zip a b = map (\<lambda>k. (a ! k, b ! k)) [0..<length a]"
  by (rule nth_equalityI) simp_all

lemma mset_np_argsort: "mset (np_argsort a) = mset [0..<length a]"
proof -
  have "mset (np_argsort a) = mset (map snd (zip a [0..<length a]))"
    unfolding np_argsort_def mset_map by (simp only: mset_sort)
  moreover have "map snd (zip a [0..<length a]) = [0..<length a]" by simp
  ultimately show ?thesis by (simp only:)
qed

lemma take_at_argsort: "take_at a (np_argsort a) = map fst (sort_key fst (zip a [0..<length a]))"
proof -
  have "\<forall>p \<in> set (sort_key fst (zip a [0..<length a])). a ! snd p = fst p"
    by (auto simp: set_zip)
  then show ?thesis
    by (simp add: take_at_def np_argsort_def)
qed

lemma sorted_take_at_argsort: "sorted (take_at a (np_argsort a))"
  by (simp add: take_at_argsort)

lemma zip_take_at: "zip (take_at a is) (take_at b is) = map (\<lambda>k. (a ! k, b ! k)) is"
  by (induction "is") (simp_all add: take_at_def)

lemma mset_zip_sorted:
  assumes "length a = length b"
  shows "mset (zip (take_at a (np_argsort a)) (take_at b (np_argsort a))) = mset (zip a b)"
proof -
  have "mset (zip (take_at a (np_argsort a)) (take_at b (np_argsort a)))
        = image_mset (\<lambda>k. (a ! k, b ! k)) (mset (np_argsort a))"
    by (simp add: zip_take_at)
  also have "\<dots> = mset (map (\<lambda>k. (a ! k, b ! k)) [0..<length a])"
    by (simp only: mset_np_argsort mset_map)
  finally show ?thesis using assms by (simp only: zip_nth_conv)
qed

lemma mset_take_at_argsort: "mset (take_at a (np_argsort a)) = mset a"
proof -
  have "mset (take_at a (np_argsort a)) = image_mset ((!) a) (mset (np_argsort a))"
    by (simp add: take_at_def)
  also have "\<dots> = mset (map ((!) a) [0..<length a])"
    by (simp only: mset_np_argsort mset_map)
  finally show ?thesis by (simp only: map_nth)
qed

lemma length_take_at: "length (take_at a is) = length is"
  by (simp add: take_at_def)

lemma mask_select_values: "mask_select (map P a) a = filter P a"
  by (induction a) (simp_all add: mask_select_def)

lemma mask_select_zip:
  "length a = length b \<Longrightarrow>
   zip (mask_select (map P a) a) (mask_select (map P a) b) = filter (\<lambda>p. P (fst p)) (zip a b)"
  by (induction a b rule: list_induct2) (simp_all add: mask_select_def)

lemma length_mask_select:
  "length a = length b \<Longrightarrow> length (mask_select (map P a) b) = length (filter P a)"
  by (induction a b rule: list_induct2) (simp_all add: mask_select_def)

lemma length_fold_global:
  "length (fst (fold (global_step x ci) js st)) = length (fst st) \<and>
   length (snd (fold (global_step x ci) js st)) = length (snd st)"
  by (induction js arbitrary: st) (simp_all add: global_step_def Let_def)

lemma length_global_maxima:
  "length (fst (global_maxima x ci n)) = length (snd (global_maxima x ci n))"
  by (simp add: global_maxima_def length_fold_global)

lemma length_local_maxima: "length (fst (local_maxima x)) = length (snd (local_maxima x))"
  by (simp add: local_maxima_def Let_def)

lemma length_found: "length (fst (found_maxima x local)) = length (snd (found_maxima x local))"
  by (simp add: found_maxima_def Let_def length_global_maxima length_local_maxima)

lemma sorted_same_mset:
  "sorted (xs::real list) \<Longrightarrow> sorted ys \<Longrightarrow> mset xs = mset ys \<Longrightarrow> xs = ys"
  by (metis properties_for_sort)

subsection \<open>The threshold\<close>

text \<open>With at least two up-crossings the early return is not taken, and the call is the
  threshold step and the sort applied to the candidate arrays.\<close>

lemma find_maxima_many:
  assumes "2 \<le> length (crossing_indices True x)"
  shows "find_maxima x local thr True retind =
     (case thr of
        NoThreshold \<Rightarrow>
          (let f = found_maxima x local; asc = np_argsort (fst f)
           in if retind then Inr (MaximaIndices (take_at (fst f) asc) (take_at (snd f) asc))
              else Inr (Maxima (take_at (fst f) asc)))
      | FloatThreshold th \<Rightarrow>
          (let f = found_maxima x local;
               keep = map (\<lambda>v. th \<le> v) (fst f);
               m = mask_select keep (fst f); mi = mask_select keep (snd f);
               asc = np_argsort m
           in if retind then Inr (MaximaIndices (take_at m asc) (take_at mi asc))
              else Inr (Maxima (take_at m asc)))
      | IntThreshold _ \<Rightarrow> Inl TypeError
      | StrThreshold _ \<Rightarrow> Inl TypeError)"
proof -
  have "\<not> sum_list (crossings True x) < 2"
    using assms by (simp add: sum_crossings indicator_def)
  then show ?thesis
    by (cases thr)
       (simp_all add: find_maxima_def found_maxima_def Let_def split: prod.splits)
qed

text \<open>
  C8 (as the code has it). For \<^verbatim>\<open>up=True\<close> and a signal with at least two up-crossings:
  a threshold that is not a float makes the call fail with \<open>TypeError\<close>; a float
  threshold \<open>th\<close> keeps exactly the maxima \<open>\<ge> th\<close>, each with its index: the values
  returned are those of the call without a threshold that are \<open>\<ge> th\<close>, and the
  (value, index) pairs are the same pairs, filtered.
\<close>

theorem find_maxima_threshold_applied:
  assumes "2 \<le> length (crossing_indices True x)"
  shows "find_maxima x local (IntThreshold k) True retind = Inl TypeError
       \<and> find_maxima x local (StrThreshold s) True retind = Inl TypeError
       \<and> (\<exists>m mi m' mi'.
            find_maxima x local NoThreshold True True = Inr (MaximaIndices m mi)
          \<and> find_maxima x local (FloatThreshold th) True True = Inr (MaximaIndices m' mi')
          \<and> find_maxima x local (FloatThreshold th) True False = Inr (Maxima m')
          \<and> length mi = length m \<and> length mi' = length m'
          \<and> m' = filter (\<lambda>v. th \<le> v) m
          \<and> mset (zip m' mi') = filter_mset (\<lambda>p. th \<le> fst p) (mset (zip m mi)))"
proof -
  define fm where "fm = fst (found_maxima x local)"
  define fi where "fi = snd (found_maxima x local)"
  define km where "km = mask_select (map (\<lambda>v. th \<le> v) fm) fm"
  define ki where "ki = mask_select (map (\<lambda>v. th \<le> v) fm) fi"
  define m where "m = take_at fm (np_argsort fm)"
  define mi where "mi = take_at fi (np_argsort fm)"
  define m' where "m' = take_at km (np_argsort km)"
  define mi' where "mi' = take_at ki (np_argsort km)"
  have len: "length fm = length fi" by (simp add: fm_def fi_def length_found)
  have klen: "length km = length ki"
    using len by (simp add: km_def ki_def length_mask_select mask_select_values)
  have e1: "find_maxima x local (IntThreshold k) True retind = Inl TypeError"
    and e2: "find_maxima x local (StrThreshold s) True retind = Inl TypeError"
    by (simp_all add: find_maxima_many [OF assms])
  have r0: "find_maxima x local NoThreshold True True = Inr (MaximaIndices m mi)"
    by (simp add: find_maxima_many [OF assms] Let_def m_def mi_def fm_def fi_def)
  have r1: "find_maxima x local (FloatThreshold th) True True = Inr (MaximaIndices m' mi')"
    by (simp add: find_maxima_many [OF assms] Let_def m'_def mi'_def km_def ki_def
          fm_def fi_def)
  have r2: "find_maxima x local (FloatThreshold th) True False = Inr (Maxima m')"
    by (simp add: find_maxima_many [OF assms] Let_def m'_def km_def fm_def)
  have l0: "length mi = length m" by (simp add: m_def mi_def length_take_at)
  have l1: "length mi' = length m'" by (simp add: m'_def mi'_def length_take_at)
  have "mset m' = mset (filter (\<lambda>v. th \<le> v) fm)"
    by (simp only: m'_def mset_take_at_argsort km_def mask_select_values)
  also have "\<dots> = mset (filter (\<lambda>v. th \<le> v) m)"
    by (simp only: mset_filter m_def mset_take_at_argsort)
  finally have "mset m' = mset (filter (\<lambda>v. th \<le> v) m)" .
  moreover have "sorted m'" by (simp add: m'_def sorted_take_at_argsort)
  moreover have "sorted (filter (\<lambda>v. th \<le> v) m)"
    by (simp add: m_def sorted_take_at_argsort sorted_wrt_filter)
  ultimately have v: "m' = filter (\<lambda>v. th \<le> v) m" by (rule sorted_same_mset [rotated 2])
  have "mset (zip m' mi') = mset (zip km ki)"
    unfolding m'_def mi'_def by (rule mset_zip_sorted [OF klen])
  also have "\<dots> = filter_mset (\<lambda>p. th \<le> fst p) (mset (zip fm fi))"
    by (simp only: km_def ki_def mask_select_zip [OF len] mset_filter)
  also have "mset (zip fm fi) = mset (zip m mi)"
    unfolding m_def mi_def by (rule mset_zip_sorted [OF len, symmetric])
  finally have p: "mset (zip m' mi') = filter_mset (\<lambda>p. th \<le> fst p) (mset (zip m mi))" .
  from e1 e2 r0 r1 r2 l0 l1 v p show ?thesis by blast
qed

theorem find_maxima_threshold_applied_witness:
  "2 \<le> length (crossing_indices True [- 1, 1, - 1, 1, - 1]) \<and>
   find_maxima [- 1, 1, - 1, 1, - 1] False (IntThreshold 1) True True = Inl TypeError"
proof -
  have h: "2 \<le> length (crossing_indices True [- 1, 1, - 1, 1, - 1])" by code_simp
  from find_maxima_threshold_applied [OF h, of False 1 True] show ?thesis
    using h by simp
qed

text \<open>C8, as stated, fails: below two crossings the early return comes before the type
  check, and a threshold of the wrong type raises nothing.\<close>

theorem find_maxima_threshold_type_counterexample:
  "find_maxima [0, 0] False (IntThreshold 1) True True = Inr (MaximaIndices [] [])"
  by code_simp

section \<open>Properties of the autocorrelation\<close>

lemma length_autocorrelation: "length (autocorrelation series) = length series"
  by (simp add: autocorrelation_def Let_def)

text \<open>
  C4 on the code. The lags are \<^verbatim>\<open>np.arange(n)\<close>, which starts at 0 although the comment
  on that line says that lag 0 is avoided: a series of 3 samples yields 3 coefficients, the
  first of them the lag-0 coefficient 1.0.
\<close>

theorem autocorrelation_includes_lag_zero:
  "autocorrelation [1, 2, 3] = [Fin 1, Fin 0, Fin (- 1 / 2)]"
  by code_simp

section \<open>Properties of the smoothing\<close>

text \<open>
  C10. A one-dimensional input at least as long as the window, with a window length below
  3, is returned unchanged whatever the window name and the mode are: the name is tested
  only after this return.
\<close>

theorem smooth_short_window_noop:
  "window_len \<le> int (length xs) \<Longrightarrow> window_len < 3 \<Longrightarrow>
   smooth (Array1 xs) window_len window mode = Inr xs"
  by (simp add: smooth_def)

theorem smooth_short_window_noop_witness:
  "(2::int) \<le> int (length [4, 5, 6 :: real]) \<and> (2::int) < 3 \<and>
   smooth (Array1 [4, 5, 6]) 2 ''gaussian'' ''nearest'' = Inr [4, 5, 6]"
proof -
  have h1: "(2::int) \<le> int (length [4, 5, 6 :: real])" by simp
  have h2: "(2::int) < 3" by simp
  from smooth_short_window_noop [OF h1 h2, of "''gaussian''" "''nearest''"] show ?thesis
    using h1 by simp
qed

text \<open>
  C7 (as the code has it). With a window name outside the five known ones, \<^verbatim>\<open>smooth\<close>
  fails with \<open>ValueError\<close>, except for a one-dimensional input at least as long as the
  window with a window length below 3, which is returned unchanged.
\<close>

theorem smooth_unknown_window:
  "window \<notin> set known_windows \<Longrightarrow>
   smooth x window_len window mode =
     (case x of
        Array1 xs \<Rightarrow> if window_len \<le> int (length xs) \<and> window_len < 3 then Inr xs
                     else Inl ValueError
      | _ \<Rightarrow> Inl ValueError)"
  by (cases x) (simp_all add: smooth_def)

theorem smooth_unknown_window_witness:
  "''boxcar'' \<notin> set known_windows \<and>
   smooth (Array1 [1, 2, 3, 4]) 3 ''boxcar'' ''same'' = Inl ValueError"
proof -
  have h: "''boxcar'' \<notin> set known_windows" by (simp add: known_windows_def)
  from smooth_unknown_window [OF h, of "Array1 [1, 2, 3, 4]" 3 "''same''"] show ?thesis
    using h by simp
qed

text \<open>C7, as stated, fails: an unknown name with a window length of 2 raises nothing.\<close>

theorem smooth_unknown_window_counterexample:
  "''boxcar'' \<notin> set known_windows \<and>
   smooth (Array1 [1, 2, 3]) 2 ''boxcar'' ''same'' = Inr [1, 2, 3]"
  by (simp add: known_windows_def smooth_def)

section \<open>Properties of the tapering\<close>

lemma fold_fadd_ones:
  "fold (\<lambda>v acc. fadd acc v) (replicate n (Fin 1)) (Fin a) = Fin (a + real n)"
  by (induction n arbitrary: a) (simp_all add: algebra_simps)

lemma fsum_ones: "fsum (replicate n (Fin 1)) = Fin (real n)"
  using fold_fadd_ones [of n 0] by (simp add: fsum_def)

lemma map2_fmul_ones: "map2 fmul (map Fin x) (replicate (length x) (Fin 1)) = map Fin x"
  by (induction x) simp_all

lemma lower_rectangular: "lower ''rectangular'' = ''rectangular''"
  by (simp add: lower_def lower_char_def)

text \<open>
  C9 (as the code has it). For a non-empty signal, \<^verbatim>\<open>taper\<close> with the rectangular
  window (in any letter case) returns the signal unchanged and the correction factor 1.0.
  Whenever \<^verbatim>\<open>taper\<close> returns, the correction factor is the mean square of the window
  used: the sum of its squares divided by the length of the signal.
\<close>

theorem taper_rectangular:
  "(lower window = ''rectangular'' \<and> x \<noteq> [] \<longrightarrow>
      taper np_eval x window alpha = Inr (map Fin x, Fin 1)) \<and>
   (\<forall>y wcorr. taper np_eval x window alpha = Inr (y, wcorr) \<longrightarrow>
      (\<exists>w. taper_window np_eval (lower window) alpha (length x) = Inr w \<and>
           wcorr = fdiv (fsum (map (\<lambda>v. fmul v v) w)) (Fin (real (length x)))))"
proof (intro conjI impI allI)
  assume "lower window = ''rectangular'' \<and> x \<noteq> []"
  then show "taper np_eval x window alpha = Inr (map Fin x, Fin 1)"
    by (simp add: taper_def taper_window_def np_mul_def fsum_ones map2_fmul_ones Let_def)
next
  fix y wcorr
  assume "taper np_eval x window alpha = Inr (y, wcorr)"
  then show "\<exists>w. taper_window np_eval (lower window) alpha (length x) = Inr w \<and>
           wcorr = fdiv (fsum (map (\<lambda>v. fmul v v) w)) (Fin (real (length x)))"
    by (auto simp: taper_def Let_def split: sum.splits)
qed

theorem taper_rectangular_witness:
  "lower ''Rectangular'' = ''rectangular'' \<and> [2, 3 :: real] \<noteq> [] \<and>
   taper np_eval_basic [2, 3] ''Rectangular'' 0.001 = Inr ([Fin 2, Fin 3], Fin 1) \<and>
   (\<exists>w. taper_window np_eval_basic (lower ''Rectangular'') 0.001 (length [2, 3 :: real]) = Inr w \<and>
        Fin 1 = fdiv (fsum (map (\<lambda>v. fmul v v) w)) (Fin (real (length [2, 3 :: real]))))"
proof -
  have h: "lower ''Rectangular'' = ''rectangular''" by code_simp
  from taper_rectangular [of "''Rectangular''" "[2, 3]" np_eval_basic "0.001"] h
  show ?thesis by simp
qed

text \<open>C9, as stated, fails on the empty signal: the sum of no squares divided by the
  length 0 is \<open>nan\<close>, not 1.0.\<close>

theorem taper_rectangular_empty_counterexample:
  "taper np_eval_basic [] ''rectangular'' 0.001 = Inr ([], NaN)"
  by (simp add: taper_def lower_rectangular taper_window_def np_mul_def fsum_def)

section \<open>Properties of the transforms\<close>

subsection \<open>Sums over the roots of unity\<close>

lemma two_pi_cancel:
  fixes d q :: int and n :: nat
  assumes q: "2 * pi * real_of_int d / real n = real_of_int q * 2 * pi" and n: "0 < n"
  shows "real_of_int d = real_of_int q * real n"
proof -
  have "2 * pi * real_of_int d = real_of_int q * 2 * pi * real n"
    using q n by (simp add: divide_eq_eq)
  then have "(2 * pi) * real_of_int d = (2 * pi) * (real_of_int q * real n)"
    by (simp only: mult_ac)
  then show ?thesis by simp
qed

lemma multiple_abs_ge:
  fixes d q :: int and n :: nat
  assumes "d = q * int n" "d \<noteq> 0" "0 < n"
  shows "int n \<le> \<bar>d\<bar>"
proof -
  have "q \<noteq> 0" using assms by auto
  then have "1 \<le> \<bar>q\<bar>" by linarith
  then have "1 * int n \<le> \<bar>q\<bar> * int n" by (intro mult_right_mono) simp_all
  then show ?thesis using assms by (simp add: abs_mult)
qed

lemma cis_root_neq_1:
  assumes "d \<noteq> 0" "\<bar>d\<bar> < int n"
  shows "cis (2 * pi * real_of_int d / real n) \<noteq> 1"
proof
  assume "cis (2 * pi * real_of_int d / real n) = 1"
  then have "Re (cis (2 * pi * real_of_int d / real n)) = Re 1" by (simp only:)
  then have "cos (2 * pi * real_of_int d / real n) = 1" by simp
  then obtain q :: int where q: "2 * pi * real_of_int d / real n = real_of_int q * 2 * pi"
    unfolding cos_one_2pi_int by blast
  have n: "0 < n" using assms by linarith
  have "real_of_int d = real_of_int (q * int n)" using two_pi_cancel [OF q n] by simp
  then have dq: "d = q * int n" by (simp only: of_int_eq_iff)
  from multiple_abs_ge [OF dq assms(1) n] assms(2) show False by linarith
qed

lemma cos_sum_roots:
  assumes "\<bar>d\<bar> < int n"
  shows "(\<Sum>m<n. cos (real m * (2 * pi * real_of_int d / real n))) = (if d = 0 then real n else 0)"
proof (cases "d = 0")
  case True
  then show ?thesis by simp
next
  case False
  define w where "w = cis (2 * pi * real_of_int d / real n)"
  have n: "0 < n" using assms by linarith
  have w1: "w \<noteq> 1" unfolding w_def using False assms by (rule cis_root_neq_1)
  have "w ^ n = cis (2 * pi * real_of_int d)"
    unfolding w_def DeMoivre using n by simp
  also have "\<dots> = 1" by (rule cis_multiple_2pi) simp
  finally have wn: "w ^ n = 1" .
  have "(\<Sum>m<n. w ^ m) = 0" using w1 wn by (simp add: geometric_sum)
  then have "Re (\<Sum>m<n. w ^ m) = 0" by simp
  then have "(\<Sum>m<n. cos (real m * (2 * pi * real_of_int d / real n))) = 0"
    by (simp add: w_def DeMoivre)
  with False show ?thesis by simp
qed

lemma sum_pairing_odd:
  fixes f :: "nat \<Rightarrow> real"
  assumes "\<And>m. 1 \<le> m \<Longrightarrow> m \<le> h \<Longrightarrow> f (2 * h + 1 - m) = f m"
  shows "(\<Sum>m<2 * h + 1. f m) = f 0 + 2 * (\<Sum>m\<in>{1..h}. f m)"
proof -
  have split: "{..<2 * h + 1} = {0} \<union> {1..h} \<union> {h + 1..2 * h}" by auto
  have "(\<Sum>m<2 * h + 1. f m) = f 0 + (\<Sum>m\<in>{1..h}. f m) + (\<Sum>m\<in>{h + 1..2 * h}. f m)"
    unfolding split by (subst sum.union_disjoint; simp)+
  moreover have "(\<Sum>m\<in>{h + 1..2 * h}. f m) = (\<Sum>m\<in>{1..h}. f (2 * h + 1 - m))"
    by (rule sum.reindex_bij_witness [of _ "\<lambda>m. 2 * h + 1 - m" "\<lambda>m. 2 * h + 1 - m"]) auto
  moreover have "(\<Sum>m\<in>{1..h}. f (2 * h + 1 - m)) = (\<Sum>m\<in>{1..h}. f m)"
    by (rule sum.cong) (use assms in auto)
  ultimately show ?thesis by simp
qed

lemma sum_pairing_even:
  fixes f :: "nat \<Rightarrow> real"
  assumes "\<And>m. 1 \<le> m \<Longrightarrow> m \<le> h \<Longrightarrow> f (2 * h + 2 - m) = f m"
  shows "(\<Sum>m<2 * h + 2. f m) = f 0 + 2 * (\<Sum>m\<in>{1..h}. f m) + f (h + 1)"
proof -
  have split: "{..<2 * h + 2} = {0} \<union> {1..h} \<union> {h + 1} \<union> {h + 2..2 * h + 1}" by auto
  have "(\<Sum>m<2 * h + 2. f m) =
        f 0 + (\<Sum>m\<in>{1..h}. f m) + f (h + 1) + (\<Sum>m\<in>{h + 2..2 * h + 1}. f m)"
    unfolding split by (subst sum.union_disjoint; simp)+
  moreover have "(\<Sum>m\<in>{h + 2..2 * h + 1}. f m) = (\<Sum>m\<in>{1..h}. f (2 * h + 2 - m))"
    by (rule sum.reindex_bij_witness [of _ "\<lambda>m. 2 * h + 2 - m" "\<lambda>m. 2 * h + 2 - m"]) auto
  moreover have "(\<Sum>m\<in>{1..h}. f (2 * h + 2 - m)) = (\<Sum>m\<in>{1..h}. f m)"
    by (rule sum.cong) (use assms in auto)
  ultimately show ?thesis by simp
qed

lemma cos_full_turns_minus: "cos (2 * pi * real_of_int d - x) = cos x"
proof -
  have "sin (2 * pi * real_of_int d) = 0"
    by (metis mult.assoc mult.commute sin_npi_int of_int_mult of_int_numeral)
  then show ?thesis by (simp add: cos_diff)
qed

text \<open>Orthogonality: the weight is \<open>n\<close> on the diagonal and 0 elsewhere.\<close>

lemma dft_kernel_delta:
  assumes "j < n" "k < n"
  shows "dft_kernel n j k = (if j = k then real n else 0)"
proof -
  define d where "d = int k - int j"
  define a where "a = 2 * pi * real_of_int d / real n"
  define c where "c = (\<lambda>m. cos (real m * a))"
  have n: "0 < n" using assms by simp
  have dlt: "\<bar>d\<bar> < int n" using assms by (simp add: d_def)
  have ang: "dft_angle n m k - dft_angle n j m = real m * a" for m
    by (simp add: dft_angle_def a_def d_def algebra_simps diff_divide_distrib)
  have total: "(\<Sum>m<n. c m) = (if d = 0 then real n else 0)"
    unfolding c_def a_def by (rule cos_sum_roots [OF dlt])
  have sym: "c (n - m) = c m" if "m \<le> n" for m
  proof -
    have "real (n - m) * a = 2 * pi * real_of_int d - real m * a"
      using that n by (simp add: a_def of_nat_diff field_simps)
    then show ?thesis by (simp add: c_def cos_full_turns_minus)
  qed
  have c0: "c 0 = 1" by (simp add: c_def)
  have K: "dft_kernel n j k =
           1 + (if even n then (- 1) ^ j * (- 1) ^ k else 0) + 2 * (\<Sum>m\<in>{1..(n - 1) div 2}. c m)"
    by (simp add: dft_kernel_def ang c_def)
  have dzero: "d = 0 \<longleftrightarrow> j = k" by (auto simp: d_def)
  show ?thesis
  proof (cases "even n")
    case False
    then obtain h where h: "n = 2 * h + 1" by (auto elim: oddE)
    have "(\<Sum>m<2 * h + 1. c m) = c 0 + 2 * (\<Sum>m\<in>{1..h}. c m)"
      by (rule sum_pairing_odd) (use sym h in auto)
    with total c0 h have "1 + 2 * (\<Sum>m\<in>{1..h}. c m) = (if d = 0 then real n else 0)" by simp
    moreover have "(n - 1) div 2 = h" using h by simp
    ultimately show ?thesis using False K dzero by simp
  next
    case True
    with n obtain h where h: "n = 2 * h + 2"
      by (metis One_nat_def Suc_pred add_2_eq_Suc' evenE even_Suc mult_Suc_right not_gr_zero odd_pos  dvd_def)
    have "(\<Sum>m<2 * h + 2. c m) = c 0 + 2 * (\<Sum>m\<in>{1..h}. c m) + c (h + 1)"
      by (rule sum_pairing_even) (use sym h in auto)
    with total c0 h have s: "1 + 2 * (\<Sum>m\<in>{1..h}. c m) + c (h + 1) = (if d = 0 then real n else 0)"
      by simp
    have "real (h + 1) * a = pi * real_of_int d"
      using h by (simp add: a_def field_simps)
    then have "c (h + 1) = (if even d then 1 else - 1)"
      by (simp add: c_def)
    also have "\<dots> = (- 1) ^ j * (- 1) ^ k"
      by (cases "even j"; cases "even k") (simp_all add: d_def)
    finally have mid: "c (h + 1) = (- 1) ^ j * (- 1) ^ k" .
    have "(n - 1) div 2 = h" using h by simp
    then show ?thesis using True K dzero s mid by simp
  qed
qed

subsection \<open>The inverse real transform undoes the real transform\<close>

lemma rfft_re_sum: "rfft_re xs m = (\<Sum>k<length xs. xs ! k * cos (dft_angle (length xs) m k))"
  by (simp add: rfft_re_def interv_sum_list_conv_sum_set_nat atLeast0LessThan)

lemma rfft_im_sum: "rfft_im xs m = - (\<Sum>k<length xs. xs ! k * sin (dft_angle (length xs) m k))"
  by (simp add: rfft_im_def interv_sum_list_conv_sum_set_nat atLeast0LessThan)

lemma rfft_re_0: "rfft_re xs 0 = (\<Sum>k<length xs. xs ! k)"
  by (simp add: rfft_re_sum dft_angle_def)

lemma rfft_re_half:
  assumes "even (length xs)"
  shows "rfft_re xs (length xs div 2) = (\<Sum>k<length xs. xs ! k * (- 1) ^ k)"
proof -
  have "dft_angle (length xs) (length xs div 2) k = pi * real k" if "k < length xs" for k
  proof -
    from assms obtain h where h: "length xs = 2 * h" by (auto elim: evenE)
    with that have "0 < h" by simp
    then show ?thesis using h by (simp add: dft_angle_def field_simps)
  qed
  then show ?thesis by (simp add: rfft_re_sum)
qed

lemma harmonic_term:
  "rfft_re xs m * cos (dft_angle (length xs) j m) - rfft_im xs m * sin (dft_angle (length xs) j m)
   = (\<Sum>k<length xs. xs ! k * cos (dft_angle (length xs) m k - dft_angle (length xs) j m))"
proof -
  let ?n = "length xs"
  have "(\<Sum>k<?n. xs ! k * cos (dft_angle ?n m k - dft_angle ?n j m))
        = (\<Sum>k<?n. xs ! k * cos (dft_angle ?n m k) * cos (dft_angle ?n j m)
                    + xs ! k * sin (dft_angle ?n m k) * sin (dft_angle ?n j m))"
    by (rule sum.cong) (simp_all add: cos_diff algebra_simps)
  also have "\<dots> = (\<Sum>k<?n. xs ! k * cos (dft_angle ?n m k)) * cos (dft_angle ?n j m)
                  + (\<Sum>k<?n. xs ! k * sin (dft_angle ?n m k)) * sin (dft_angle ?n j m)"
    by (simp only: sum.distrib sum_distrib_right)
  finally show ?thesis by (simp add: rfft_re_sum rfft_im_sum)
qed

lemma spectrum_as_kernel:
  "rfft_re xs 0
   + (if even (length xs) then (- 1) ^ j * rfft_re xs (length xs div 2) else 0)
   + (\<Sum>m\<in>{1..(length xs - 1) div 2}.
        2 * (rfft_re xs m * cos (dft_angle (length xs) j m)
             - rfft_im xs m * sin (dft_angle (length xs) j m)))
   = (\<Sum>k<length xs. xs ! k * dft_kernel (length xs) j k)"
proof -
  let ?n = "length xs"
  let ?H = "{1..(?n - 1) div 2}"
  have a: "(\<Sum>k<?n. xs ! k * dft_kernel ?n j k) =
        (\<Sum>k<?n. xs ! k)
        + (\<Sum>k<?n. xs ! k * (if even ?n then (- 1) ^ j * (- 1) ^ k else 0))
        + (\<Sum>k<?n. xs ! k * (2 * (\<Sum>m\<in>?H. cos (dft_angle ?n m k - dft_angle ?n j m))))"
    by (simp add: dft_kernel_def distrib_left sum.distrib)
  have b: "(\<Sum>k<?n. xs ! k * (if even ?n then (- 1) ^ j * (- 1) ^ k else 0))
        = (if even ?n then (- 1) ^ j * rfft_re xs (?n div 2) else 0)"
    by (simp add: rfft_re_half sum_distrib_left mult_ac)
  have "(\<Sum>k<?n. xs ! k * (2 * (\<Sum>m\<in>?H. cos (dft_angle ?n m k - dft_angle ?n j m))))
        = (\<Sum>k<?n. \<Sum>m\<in>?H. 2 * (xs ! k * cos (dft_angle ?n m k - dft_angle ?n j m)))"
    by (simp add: sum_distrib_left mult_ac)
  also have "\<dots> = (\<Sum>m\<in>?H. \<Sum>k<?n. 2 * (xs ! k * cos (dft_angle ?n m k - dft_angle ?n j m)))"
    by (rule sum.swap)
  also have "\<dots> = (\<Sum>m\<in>?H. 2 * (rfft_re xs m * cos (dft_angle ?n j m)
                                   - rfft_im xs m * sin (dft_angle ?n j m)))"
    by (simp only: harmonic_term sum_distrib_left)
  finally show ?thesis using a b by (simp add: rfft_re_0)
qed

lemma length_rfft_packed: "length (rfft_packed xs) = length xs"
  by (simp add: rfft_packed_def)

lemma zero_pad_same: "length xs = n \<Longrightarrow> zero_pad n xs = xs"
  by (simp add: zero_pad_def)

lemma sum_list_upt_Suc: "(\<Sum>k\<leftarrow>[a..<b + 1]. f k) = (\<Sum>k\<in>{a..b}. f k)"
proof -
  have "(\<Sum>k\<leftarrow>[a..<b + 1]. f k) = sum f (set [a..<b + 1])"
    by (rule interv_sum_list_conv_sum_set_nat)
  also have "set [a..<b + 1] = {a..b}" by auto
  finally show ?thesis .
qed

lemma irfft_nth:
  assumes "j < n" "length r = n"
  shows "irfft r n ! j =
        (r ! 0 + (if even n then (- 1) ^ j * r ! (n - 1) else 0)
         + (\<Sum>m\<in>{1..(n - 1) div 2}.
              2 * (r ! (2 * m - 1) * cos (dft_angle n j m) - r ! (2 * m) * sin (dft_angle n j m))))
        / real n"
proof -
  have "irfft r n =
     map (\<lambda>j. (r ! 0 + (if even n then (- 1) ^ j * r ! (n - 1) else 0)
         + (\<Sum>m\<in>{1..(n - 1) div 2}.
              2 * (r ! (2 * m - 1) * cos (dft_angle n j m) - r ! (2 * m) * sin (dft_angle n j m))))
        / real n) [0..<n]"
    by (simp only: irfft_def Let_def sum_list_upt_Suc zero_pad_same [OF assms(2)])
  then show ?thesis using assms(1) by simp
qed

text \<open>The round trip \<^verbatim>\<open>irfft(rfft(x))\<close> at the length of \<open>x\<close> is the identity.\<close>

lemma irfft_rfft_packed: "irfft (rfft_packed xs) (length xs) = xs"
proof (rule nth_equalityI)
  show "length (irfft (rfft_packed xs) (length xs)) = length xs"
    by (simp add: irfft_def Let_def)
next
  fix j assume "j < length (irfft (rfft_packed xs) (length xs))"
  then have j: "j < length xs" by (simp add: irfft_def Let_def)
  let ?n = "length xs"
  let ?R = "rfft_packed xs"
  have n: "0 < ?n" using j by auto
  have r0: "?R ! 0 = rfft_re xs 0" using n by (simp add: rfft_packed_def)
  have rlast: "?R ! (?n - 1) = rfft_re xs (?n div 2)" if "even ?n"
  proof -
    from that n have "odd (?n - 1)" by simp
    moreover from that n have "?n - 1 \<noteq> 0" by presburger
    moreover from that n have "(?n - 1 + 1) div 2 = ?n div 2" by simp
    ultimately show ?thesis using n by (simp add: rfft_packed_def)
  qed
  have rodd: "?R ! (2 * m - 1) = rfft_re xs m" and reven: "?R ! (2 * m) = rfft_im xs m"
    if "m \<in> {1..(?n - 1) div 2}" for m
  proof -
    from that have m: "1 \<le> m" "2 * m \<le> ?n - 1" by auto
    then have "2 * m - 1 < ?n" "2 * m < ?n" "2 * m - 1 \<noteq> 0" "odd (2 * m - 1)"
      using n by auto
    moreover have "(2 * m - 1 + 1) div 2 = m" using m by simp
    ultimately show "?R ! (2 * m - 1) = rfft_re xs m" "?R ! (2 * m) = rfft_im xs m"
      using m by (simp_all add: rfft_packed_def)
  qed
  have "irfft ?R ?n ! j =
        (?R ! 0 + (if even ?n then (- 1) ^ j * ?R ! (?n - 1) else 0)
         + (\<Sum>m\<in>{1..(?n - 1) div 2}.
              2 * (?R ! (2 * m - 1) * cos (dft_angle ?n j m) - ?R ! (2 * m) * sin (dft_angle ?n j m))))
        / real ?n"
    by (rule irfft_nth [OF j length_rfft_packed])
  also have "(\<Sum>m\<in>{1..(?n - 1) div 2}.
              2 * (?R ! (2 * m - 1) * cos (dft_angle ?n j m) - ?R ! (2 * m) * sin (dft_angle ?n j m)))
        = (\<Sum>m\<in>{1..(?n - 1) div 2}.
              2 * (rfft_re xs m * cos (dft_angle ?n j m) - rfft_im xs m * sin (dft_angle ?n j m)))"
    by (rule sum.cong [OF refl]) (simp only: rodd reven)
  also have "(?R ! 0 + (if even ?n then (- 1) ^ j * ?R ! (?n - 1) else 0)
         + (\<Sum>m\<in>{1..(?n - 1) div 2}.
              2 * (rfft_re xs m * cos (dft_angle ?n j m) - rfft_im xs m * sin (dft_angle ?n j m))))
        = (\<Sum>k<?n. xs ! k * dft_kernel ?n j k)"
  proof (cases "even ?n")
    case True
    show ?thesis
      using spectrum_as_kernel [of xs j] True by (simp only: r0 rlast [OF True] if_True)
  next
    case False
    show ?thesis
      using spectrum_as_kernel [of xs j] False by (simp only: r0 if_False)
  qed
  also have "(\<Sum>k<?n. xs ! k * dft_kernel ?n j k) = (\<Sum>k<?n. if k = j then xs ! k * real ?n else 0)"
    by (rule sum.cong) (auto simp: dft_kernel_delta [OF j])
  also have "\<dots> = xs ! j * real ?n" using j by (simp add: sum.delta)
  finally show "irfft ?R ?n ! j = xs ! j" using n by simp
qed

subsection \<open>Transform length, linearity, gain arrays\<close>

text \<open>The transform length is the power of two the source computes with logarithms:
  \<open>2 ^ k\<close> for the least \<open>k\<close> with \<open>n \<le> 2 ^ k\<close>. In particular it is positive and
  not below \<open>n\<close>, so cutting the result to \<open>n\<close> samples loses none.\<close>

lemma pow2_from_ge: "0 < p \<Longrightarrow> n \<le> pow2_from p n \<and> 0 < pow2_from p n"
proof (induction p n rule: pow2_from.induct)
  case (1 p n)
  show ?case
  proof (cases "n \<le> p \<or> p = 0")
    case True
    then show ?thesis using "1.prems" by (simp add: pow2_from.simps [of p n])
  next
    case False
    then show ?thesis using "1.IH" "1.prems" by (simp add: pow2_from.simps [of p n])
  qed
qed

lemma pow2_from_power:
  "p = 2 ^ i \<Longrightarrow> (i > 0 \<longrightarrow> 2 ^ (i - 1) < n) \<Longrightarrow>
   \<exists>k. pow2_from p n = 2 ^ k \<and> n \<le> 2 ^ k \<and> (k > 0 \<longrightarrow> 2 ^ (k - 1) < n)"
proof (induction p n arbitrary: i rule: pow2_from.induct)
  case (1 p n)
  show ?case
  proof (cases "n \<le> p \<or> p = 0")
    case True
    then have "pow2_from p n = p" by (simp add: pow2_from.simps [of p n])
    moreover from True "1.prems" have "n \<le> 2 ^ i" by auto
    ultimately show ?thesis using "1.prems" by blast
  next
    case False
    then have eq: "pow2_from p n = pow2_from (2 * p) n" by (simp add: pow2_from.simps [of p n])
    have "2 * p = 2 ^ (Suc i)" using "1.prems" by simp
    moreover have "2 ^ (Suc i - 1) < n" using False "1.prems" by simp
    ultimately show ?thesis using "1.IH" [OF False, of "Suc i"] eq by simp
  qed
qed

lemma nfft_of_least_power:
  "0 < n \<Longrightarrow> \<exists>k. nfft_of n = 2 ^ k \<and> n \<le> 2 ^ k \<and> (k > 0 \<longrightarrow> 2 ^ (k - 1) < n)"
  using pow2_from_power [of 1 0 n] by (simp add: nfft_of_def)

lemma nfft_of_ge: "0 < n \<Longrightarrow> n \<le> nfft_of n \<and> 0 < nfft_of n"
  using pow2_from_ge [of 1 n] by (simp add: nfft_of_def)

lemma length_zero_pad: "length (zero_pad n xs) = n"
  by (simp add: zero_pad_def)

lemma take_zero_pad: "length xs \<le> n \<Longrightarrow> take (length xs) (zero_pad n xs) = xs"
  by (simp add: zero_pad_def)

lemma length_irfft: "length (irfft r n) = n"
  by (simp add: irfft_def Let_def)

lemma length_ifft: "length (ifft ys n) = n"
  by (simp add: ifft_def Let_def)

text \<open>The inverse real transform is additive.\<close>

lemma irfft_add:
  assumes "length a = n" "length b = n"
  shows "irfft (map2 (+) a b) n = map2 (+) (irfft a n) (irfft b n)"
proof (rule nth_equalityI)
  show "length (irfft (map2 (+) a b) n) = length (map2 (+) (irfft a n) (irfft b n))"
    by (simp add: length_irfft)
next
  fix j assume "j < length (irfft (map2 (+) a b) n)"
  then have j: "j < n" by (simp add: length_irfft)
  let ?c = "map2 (+) a b"
  have lc: "length ?c = n" using assms by simp
  have nth: "?c ! i = a ! i + b ! i" if "i < n" for i using that assms by simp
  have n: "0 < n" using j by simp
  have i0: "?c ! 0 = a ! 0 + b ! 0" by (rule nth [OF n])
  have il: "?c ! (n - 1) = a ! (n - 1) + b ! (n - 1)" by (rule nth) (use n in simp)
  have im: "?c ! (2 * m - 1) = a ! (2 * m - 1) + b ! (2 * m - 1)"
           "?c ! (2 * m) = a ! (2 * m) + b ! (2 * m)" if "m \<in> {1..(n - 1) div 2}" for m
    using that n by (auto intro!: nth)
  have "(\<Sum>m\<in>{1..(n - 1) div 2}.
              2 * (?c ! (2 * m - 1) * cos (dft_angle n j m) - ?c ! (2 * m) * sin (dft_angle n j m)))
      = (\<Sum>m\<in>{1..(n - 1) div 2}.
              2 * (a ! (2 * m - 1) * cos (dft_angle n j m) - a ! (2 * m) * sin (dft_angle n j m))
            + 2 * (b ! (2 * m - 1) * cos (dft_angle n j m) - b ! (2 * m) * sin (dft_angle n j m)))"
    by (rule sum.cong [OF refl]) (simp only: im, simp add: algebra_simps)
  then have "irfft ?c n ! j = irfft a n ! j + irfft b n ! j"
    by (simp only: irfft_nth [OF j lc] irfft_nth [OF j assms(1)] irfft_nth [OF j assms(2)]
          i0 il sum.distrib)
       (simp add: algebra_simps add_divide_distrib)
  then show "irfft ?c n ! j = map2 (+) (irfft a n) (irfft b n) ! j"
    using j by (simp add: length_irfft)
qed

text \<open>In every bin exactly one of the two gain arrays is one, whatever the bin
  frequency is (\<open>nan\<close> and \<open>inf\<close> included).\<close>

lemma masks_complement:
  "map2 (+) (bandpass_mask f flow fupp) (bandblock_mask f flow fupp) = replicate (length f) 1"
  by (induction f) (simp_all add: bandpass_mask_def bandblock_mask_def)

lemma length_bandpass_mask: "length (bandpass_mask f flow fupp) = length f"
  by (simp add: bandpass_mask_def)

lemma length_bandblock_mask: "length (bandblock_mask f flow fupp) = length f"
  by (simp add: bandblock_mask_def)

lemma length_rfftfreq: "length (rfftfreq n d) = n"
  by (simp add: rfftfreq_def)

lemma split_by_complement:
  assumes "length fa = n" "length hp = n" "length hb = n" "map2 (+) hp hb = replicate n 1"
  shows "map2 (+) (map2 (*) fa hp) (map2 (*) fa hb) = (fa :: real list)"
proof (rule nth_equalityI)
  show "length (map2 (+) (map2 (*) fa hp) (map2 (*) fa hb)) = length fa" using assms by simp
next
  fix i assume "i < length (map2 (+) (map2 (*) fa hp) (map2 (*) fa hb))"
  then have i: "i < n" using assms by simp
  have one: "map2 (+) hp hb ! i = 1" using i by (simp only: assms(4) nth_replicate)
  have "map2 (+) hp hb ! i = hp ! i + hb ! i" using i assms(2,3) by simp
  with one have "hp ! i + hb ! i = 1" by (simp only:)
  then have "fa ! i * hp ! i + fa ! i * hb ! i = fa ! i"
    by (simp only: distrib_left [symmetric] mult_1_right)
  then show "map2 (+) (map2 (*) fa hp) (map2 (*) fa hb) ! i = fa ! i"
    using i assms by simp
qed

section \<open>Properties of the filters\<close>

lemma fft_filter_real:
  assumes "xs \<noteq> []"
  shows "fft_filter gain (RealSignal xs) dt =
     Inr (RealSignal (take (length xs)
       (irfft (map2 (*) (rfft_packed (zero_pad (nfft_of (length xs)) xs))
                         (gain (rfftfreq (nfft_of (length xs)) dt)))
              (nfft_of (length xs)))))"
proof -
  have "0 < nfft_of (length xs)" using nfft_of_ge [of "length xs"] assms by simp
  then show ?thesis
    by (simp add: fft_filter_def all_isreal_def signal_size_def rfft_def Let_def)
qed

lemma fft_filter_real_length:
  assumes "xs \<noteq> []"
  shows "\<exists>ys. fft_filter gain (RealSignal xs) dt = Inr (RealSignal ys) \<and> length ys = length xs"
proof -
  have "length xs \<le> nfft_of (length xs)" using nfft_of_ge [of "length xs"] assms by simp
  then show ?thesis by (simp add: fft_filter_real [OF assms] length_irfft)
qed

lemma fft_filter_complex_length:
  assumes "zs \<noteq> []" "\<not> list_all (\<lambda>z. Im z = 0) zs" "dt \<noteq> 0"
  shows "\<exists>ys. fft_filter gain (ComplexSignal zs) dt = Inr (ComplexSignal ys) \<and>
              length ys = length zs"
proof -
  have n: "0 < nfft_of (length zs)" "length zs \<le> nfft_of (length zs)"
    using nfft_of_ge [of "length zs"] assms(1) by simp_all
  then show ?thesis using assms(2,3)
    by (simp add: fft_filter_def all_isreal_def signal_size_def fft_def fftfreq_def Let_def
          length_ifft)
qed

lemma threshold_real_length:
  assumes "xs \<noteq> []"
  shows "\<exists>ys. threshold (RealSignal xs) th = Inr (RealSignal ys) \<and> length ys = length xs"
proof -
  have "0 < nfft_of (length xs)" "length xs \<le> nfft_of (length xs)"
    using nfft_of_ge [of "length xs"] assms by simp_all
  then show ?thesis
    by (simp add: threshold_def all_isreal_def signal_size_def rfft_def Let_def length_irfft)
qed

lemma threshold_complex_length:
  assumes "zs \<noteq> []" "\<not> list_all (\<lambda>z. Im z = 0) zs"
  shows "\<exists>ys. threshold (ComplexSignal zs) th = Inr (ComplexSignal ys) \<and> length ys = length zs"
proof -
  have n: "0 < nfft_of (length zs)" "length zs \<le> nfft_of (length zs)"
    using nfft_of_ge [of "length zs"] assms(1) by simp_all
  then show ?thesis using assms(2)
    by (simp add: threshold_def all_isreal_def signal_size_def fft_def Let_def length_ifft)
qed

text \<open>
  C6 (as the code has it). For a non-empty signal of real dtype each of \<^verbatim>\<open>lowpass\<close>,
  \<^verbatim>\<open>highpass\<close>, \<^verbatim>\<open>bandpass\<close>, \<^verbatim>\<open>bandblock\<close> and \<^verbatim>\<open>threshold\<close> returns a real
  array with as many samples as the input. For a non-empty complex signal with a non-zero
  imaginary part (and a non-zero time step) each returns an array with as many samples as
  the input, of complex dtype: the result of \<^verbatim>\<open>ifft\<close> is returned as it is.
\<close>

theorem filters_length_and_type:
  "(xs \<noteq> [] \<longrightarrow>
      (\<exists>ys. lowpass (RealSignal xs) dt fc = Inr (RealSignal ys) \<and> length ys = length xs) \<and>
      (\<exists>ys. highpass (RealSignal xs) dt fc = Inr (RealSignal ys) \<and> length ys = length xs) \<and>
      (\<exists>ys. bandpass (RealSignal xs) dt flow fupp = Inr (RealSignal ys) \<and> length ys = length xs) \<and>
      (\<exists>ys. bandblock (RealSignal xs) dt flow fupp = Inr (RealSignal ys) \<and> length ys = length xs) \<and>
      (\<exists>ys. threshold (RealSignal xs) th = Inr (RealSignal ys) \<and> length ys = length xs)) \<and>
   (zs \<noteq> [] \<and> \<not> list_all (\<lambda>z. Im z = 0) zs \<and> dt \<noteq> 0 \<longrightarrow>
      (\<exists>ys. lowpass (ComplexSignal zs) dt fc = Inr (ComplexSignal ys) \<and> length ys = length zs) \<and>
      (\<exists>ys. highpass (ComplexSignal zs) dt fc = Inr (ComplexSignal ys) \<and> length ys = length zs) \<and>
      (\<exists>ys. bandpass (ComplexSignal zs) dt flow fupp = Inr (ComplexSignal ys) \<and> length ys = length zs) \<and>
      (\<exists>ys. bandblock (ComplexSignal zs) dt flow fupp = Inr (ComplexSignal ys) \<and> length ys = length zs) \<and>
      (\<exists>ys. threshold (ComplexSignal zs) th = Inr (ComplexSignal ys) \<and> length ys = length zs))"
proof (intro conjI impI)
  assume xs: "xs \<noteq> []"
  show "\<exists>ys. lowpass (RealSignal xs) dt fc = Inr (RealSignal ys) \<and> length ys = length xs"
    unfolding lowpass_def Let_def by (rule fft_filter_real_length [OF xs])
  show "\<exists>ys. highpass (RealSignal xs) dt fc = Inr (RealSignal ys) \<and> length ys = length xs"
    unfolding highpass_def Let_def by (rule fft_filter_real_length [OF xs])
  show "\<exists>ys. bandpass (RealSignal xs) dt flow fupp = Inr (RealSignal ys) \<and> length ys = length xs"
    unfolding bandpass_def Let_def by (rule fft_filter_real_length [OF xs])
  show "\<exists>ys. bandblock (RealSignal xs) dt flow fupp = Inr (RealSignal ys) \<and> length ys = length xs"
    unfolding bandblock_def Let_def by (rule fft_filter_real_length [OF xs])
  show "\<exists>ys. threshold (RealSignal xs) th = Inr (RealSignal ys) \<and> length ys = length xs"
    by (rule threshold_real_length [OF xs])
next
  assume "zs \<noteq> [] \<and> \<not> list_all (\<lambda>z. Im z = 0) zs \<and> dt \<noteq> 0"
  then have zs: "zs \<noteq> []" "\<not> list_all (\<lambda>z. Im z = 0) zs" "dt \<noteq> 0" by simp_all
  show "\<exists>ys. lowpass (ComplexSignal zs) dt fc = Inr (ComplexSignal ys) \<and> length ys = length zs"
    unfolding lowpass_def Let_def by (rule fft_filter_complex_length [OF zs])
  show "\<exists>ys. highpass (ComplexSignal zs) dt fc = Inr (ComplexSignal ys) \<and> length ys = length zs"
    unfolding highpass_def Let_def by (rule fft_filter_complex_length [OF zs])
  show "\<exists>ys. bandpass (ComplexSignal zs) dt flow fupp = Inr (ComplexSignal ys) \<and> length ys = length zs"
    unfolding bandpass_def Let_def by (rule fft_filter_complex_length [OF zs])
  show "\<exists>ys. bandblock (ComplexSignal zs) dt flow fupp = Inr (ComplexSignal ys) \<and> length ys = length zs"
    unfolding bandblock_def Let_def by (rule fft_filter_complex_length [OF zs])
  show "\<exists>ys. threshold (ComplexSignal zs) th = Inr (ComplexSignal ys) \<and> length ys = length zs"
    by (rule threshold_complex_length [OF zs(1,2)])
qed

text \<open>
  C5 (as the code has it). The gain arrays of \<^verbatim>\<open>bandpass\<close> and \<^verbatim>\<open>bandblock\<close> over the
  same bin frequencies and band edges add up to one in every bin, and for a non-empty
  signal of real dtype the two filtered signals add up to the signal, sample by sample.
  The arithmetic of the model is exact: what the floating-point transforms add is their
  round-off.
\<close>

theorem bandpass_bandblock_complement:
  "map2 (+) (bandpass_mask f flow fupp) (bandblock_mask f flow fupp) = replicate (length f) 1 \<and>
   (xs \<noteq> [] \<longrightarrow>
      (\<exists>a b. bandpass (RealSignal xs) dt flow fupp = Inr (RealSignal a) \<and>
             bandblock (RealSignal xs) dt flow fupp = Inr (RealSignal b) \<and>
             map2 (+) a b = xs))"
proof (intro conjI impI)
  show "map2 (+) (bandpass_mask f flow fupp) (bandblock_mask f flow fupp) = replicate (length f) 1"
    by (rule masks_complement)
next
  assume xs: "xs \<noteq> []"
  define n where "n = length xs"
  define N where "N = nfft_of n"
  define lo where "lo = (if flow = 0 then float_epsilon else flow)"
  define up where "up = (if fupp = 0 then float_epsilon else fupp)"
  define fa where "fa = rfft_packed (zero_pad N xs)"
  define hp where "hp = bandpass_mask (rfftfreq N dt) lo up"
  define hb where "hb = bandblock_mask (rfftfreq N dt) lo up"
  define a where "a = take n (irfft (map2 (*) fa hp) N)"
  define b where "b = take n (irfft (map2 (*) fa hb) N)"
  have nN: "n \<le> N" "0 < N" using nfft_of_ge [of n] xs by (simp_all add: N_def n_def)
  have lens: "length fa = N" "length hp = N" "length hb = N"
    by (simp_all add: fa_def hp_def hb_def length_rfft_packed length_zero_pad
          length_bandpass_mask length_bandblock_mask length_rfftfreq)
  have pa: "bandpass (RealSignal xs) dt flow fupp = Inr (RealSignal a)"
    by (simp add: bandpass_def fft_filter_real [OF xs] a_def fa_def hp_def lo_def up_def
          N_def n_def Let_def)
  have pb: "bandblock (RealSignal xs) dt flow fupp = Inr (RealSignal b)"
    by (simp add: bandblock_def fft_filter_real [OF xs] b_def fa_def hb_def lo_def up_def
          N_def n_def Let_def)
  have comp: "map2 (+) hp hb = replicate N 1"
    unfolding hp_def hb_def by (simp only: masks_complement length_rfftfreq)
  have "map2 (+) a b = take n (map2 (+) (irfft (map2 (*) fa hp) N) (irfft (map2 (*) fa hb) N))"
    by (simp add: a_def b_def take_map take_zip)
  also have "map2 (+) (irfft (map2 (*) fa hp) N) (irfft (map2 (*) fa hb) N)
             = irfft (map2 (+) (map2 (*) fa hp) (map2 (*) fa hb)) N"
    by (rule irfft_add [symmetric]) (simp_all add: lens)
  also have "map2 (+) (map2 (*) fa hp) (map2 (*) fa hb) = fa"
    by (rule split_by_complement [OF lens comp])
  also have "irfft fa N = zero_pad N xs"
    using irfft_rfft_packed [of "zero_pad N xs"] by (simp add: fa_def length_zero_pad)
  also have "take n (zero_pad N xs) = xs"
    unfolding n_def by (rule take_zero_pad) (use nN in \<open>simp add: n_def\<close>)
  finally have "map2 (+) a b = xs" .
  with pa pb show "\<exists>a b. bandpass (RealSignal xs) dt flow fupp = Inr (RealSignal a) \<and>
             bandblock (RealSignal xs) dt flow fupp = Inr (RealSignal b) \<and>
             map2 (+) a b = xs" by blast
qed

theorem filters_length_and_type_witness:
  "[3, 5 :: real] \<noteq> [] \<and>
   (\<exists>ys. lowpass (RealSignal [3, 5]) 1 1 = Inr (RealSignal ys) \<and> length ys = length [3, 5 :: real]) \<and>
   [\<i>] \<noteq> [] \<and> \<not> list_all (\<lambda>z. Im z = 0) [\<i>] \<and> (1::real) \<noteq> 0 \<and>
   (\<exists>ys. threshold (ComplexSignal [\<i>]) (0, 1) = Inr (ComplexSignal ys) \<and> length ys = length [\<i>])"
  using filters_length_and_type [where xs = "[3, 5]" and zs = "[\<i>]" and dt = 1 and fc = 1
      and th = "(0, 1)"]
  by simp

lemma upt_0_2: "[0..<2] = [0, 1]"
  by (simp add: upt_rec)

lemmas filter_eval =
  lowpass_def highpass_def bandpass_def bandblock_def threshold_def fft_filter_def
  all_isreal_def signal_size_def nfft_of_def pow2_from.simps rfft_def fft_def ifft_def
  irfft_def rfft_packed_def rfft_re_def rfft_im_def zero_pad_def dft_angle_def rfftfreq_def
  fftfreq_def lowpass_mask_def highpass_mask_def bandpass_mask_def bandblock_mask_def
  amplitude_mask_def complex_samples_def real_valued_def Let_def upt_0_2

text \<open>C6, as stated, fails: the low pass of the one-sample complex signal \<open>[\<i>]\<close> is
  \<open>[\<i>]\<close>, which is not real-valued; and an empty signal makes the transform of length 0
  fail.\<close>

theorem filters_complex_counterexample:
  "lowpass (ComplexSignal [\<i>]) 1 1 = Inr (ComplexSignal [\<i>]) \<and>
   \<not> real_valued (ComplexSignal [\<i>]) \<and>
   lowpass (RealSignal []) 1 1 = Inl ValueError"
  by (simp add: filter_eval)

theorem bandpass_bandblock_complement_witness:
  "[3, 5 :: real] \<noteq> [] \<and>
   (\<exists>a b. bandpass (RealSignal [3, 5]) 1 (1 / 4) 1 = Inr (RealSignal a) \<and>
          bandblock (RealSignal [3, 5]) 1 (1 / 4) 1 = Inr (RealSignal b) \<and>
          map2 (+) a b = [3, 5])"
  using bandpass_bandblock_complement [where xs = "[3, 5]" and dt = 1 and flow = "1 / 4" and fupp = 1]
  by simp

text \<open>C5, as stated, fails on the empty signal: the transform length is 0 and both
  filters raise.\<close>

theorem bandpass_bandblock_empty_counterexample:
  "bandpass (RealSignal []) 1 (1 / 4) 1 = Inl ValueError \<and>
   bandblock (RealSignal []) 1 (1 / 4) 1 = Inl ValueError"
  by (simp add: bandpass_def bandblock_def fft_filter_def all_isreal_def signal_size_def
        nfft_of_def rfft_def Let_def)

text \<open>The two filters on a signal of two samples, evaluated.\<close>

lemma bandpass_example: "bandpass (RealSignal [3, 5]) 1 (1 / 4) 1 = Inr (RealSignal [- 1, 1])"
  by (simp add: filter_eval)

lemma bandblock_example: "bandblock (RealSignal [3, 5]) 1 (1 / 4) 1 = Inr (RealSignal [4, 4])"
  by (simp add: filter_eval)

end
